theory Spec2Isabelle
  imports Complex_Main "HOL-Library.AList"
begin

section \<open>Data model\<close>

text \<open>
  Python floats are modelled as real numbers throughout: the theorems below are about the
  formulas the code evaluates, not about IEEE rounding, and the values NaN and infinity are
  outside the model. Python strings are \<open>string\<close>.
  An exception is a value carrying its message (\<open>str(e)\<close>); only subclasses of
  \<open>Exception\<close> are meant, since that is what the \<open>except Exception\<close> clauses catch.
\<close>

datatype exn = Exception string

fun str_exn :: "exn \<Rightarrow> string" where
  "str_exn (Exception msg) = msg"

text \<open>The enumerations of \<open>schemas/verification.py\<close>.\<close>

datatype Vertical = ECOMMERCE | SAAS | TECH | FINANCE | HEALTH | EDUCATION | PROFESSIONAL | V_GENERAL

datatype TimeSensitivity = HIGH | MEDIUM | LOW

datatype ClaimType = NUMERIC | ENTITY | TEMPORAL | COMPARATIVE | CAUSAL | GENERAL

datatype Verdict =
  STRONGLY_SUPPORTED | SUPPORTED | MIXED | WEAK | CONTRADICTED | OUTDATED | NOT_VERIFIABLE

datatype SourceRole = SUPPORTING | CONTRADICTING | NEUTRAL

text \<open>\<open>Verdict.value\<close>: the string carried by each member.\<close>

fun verdict_value :: "Verdict \<Rightarrow> string" where
  "verdict_value STRONGLY_SUPPORTED = ''strongly_supported''"
| "verdict_value SUPPORTED = ''supported''"
| "verdict_value MIXED = ''mixed''"
| "verdict_value WEAK = ''weak''"
| "verdict_value CONTRADICTED = ''contradicted''"
| "verdict_value OUTDATED = ''outdated''"
| "verdict_value NOT_VERIFIABLE = ''not_verifiable''"

text \<open>A parsed \<open>datetime\<close> is kept abstract as a number of days.\<close>

type_synonym datetime = int

record SourceInfo =
  si_url :: string
  si_domain :: string
  si_snippet :: string
  domain_score :: real
  si_published_at :: "datetime option"
  role :: SourceRole

record ClaimSources =
  supporting :: "SourceInfo list"
  contradicting :: "SourceInfo list"

record ClaimResult =
  cr_id :: string
  span :: "int list"
  cr_text :: string
  cr_claim_type :: ClaimType
  cr_topic :: Vertical
  cr_time_sensitivity :: TimeSensitivity
  verdict :: Verdict
  confidence :: real
  reasoning :: string
  sources :: ClaimSources


text \<open>
  Claims and evidence items travel through the agents as dictionaries. A key that the code
  reads with \<open>d["k"]\<close> and that every producer sets is a plain field; a key that the code
  reads with \<open>d.get("k", default)\<close>, or that a producer may leave out, is an \<open>option\<close>
  (\<open>None\<close>: the key is absent). The claim dictionaries come from the language model's JSON,
  so even \<open>text\<close> may be missing; \<open>id\<close> is assigned by the extractor.
\<close>

record Claim =
  claim_id :: string
  claim_text :: "string option"
  claim_type :: "string option"
  topic :: "string option"
  time_sensitivity :: "string option"
  span_start :: "int option"
  span_end :: "int option"
  is_verifiable :: bool

record EvidenceItem =
  url :: string
  title :: "string option"
  snippet :: "string option"
  domain :: "string option"
  published_at :: "string option"
  relevance_score :: real
  domain_reputation :: "real option"
  combined_score :: "real option"

text \<open>\<open>d.get(k, default)\<close> on such a field.\<close>

definition py_get :: "'a option \<Rightarrow> 'a \<Rightarrow> 'a" where
  "py_get v dflt = (case v of None \<Rightarrow> dflt | Some x \<Rightarrow> x)"

section \<open>Score aggregator (\<open>services/verification_service.py\<close>)\<close>

text \<open>Python's \<open>int(x)\<close> on a float truncates towards zero.\<close>

definition py_int :: "real \<Rightarrow> int" where
  "py_int x = (if 0 \<le> x then \<lfloor>x\<rfloor> else \<lceil>x\<rceil>)"

definition verdict_weights :: "(string \<times> real) list" where
  "verdict_weights =
     [(''strongly_supported'', 1.0),
      (''supported'', 0.85),
      (''mixed'', 0.50),
      (''weak'', 0.35),
      (''contradicted'', 0.10),
      (''outdated'', 0.40),
      (''not_verifiable'', 0.50)]"

text \<open>\<open>verdict_weights.get(claim.verdict.value, 0.5)\<close>\<close>

definition verdict_score :: "Verdict \<Rightarrow> real" where
  "verdict_score v =
     (case map_of verdict_weights (verdict_value v) of Some w \<Rightarrow> w | None \<Rightarrow> 0.5)"

definition position_weight :: "nat \<Rightarrow> real" where
  "position_weight i = 1.0 + (0.3 / (real i + 1))"

text \<open>The body of the loop up to \<open>final_score\<close>, for the claim at hand.\<close>

definition final_score :: "ClaimResult \<Rightarrow> real" where
  "final_score claim =
     (let supporting_count = length (supporting (sources claim));
          contradicting_count = length (contradicting (sources claim));
          base_score = verdict_score (verdict claim) * confidence claim;
          total_sources = supporting_count + contradicting_count
      in if total_sources > 0 then
           (let support_ratio =
                  (if total_sources > 0 then real supporting_count / real total_sources else 0);
                support_bonus = (support_ratio powr 0.7) * 0.15;
                source_bonus = min 0.15 (0.08 * ln (real supporting_count + 1))
            in min 1.0 (base_score + support_bonus + source_bonus))
         else base_score)"

record score_acc =
  total_supporting :: nat
  total_contradicting :: nat
  total_weight :: real
  weighted_sum :: real

text \<open>\<open>for i, claim in enumerate(claims)\<close>, started at index \<open>i\<close>.\<close>

fun score_loop :: "nat \<Rightarrow> ClaimResult list \<Rightarrow> score_acc \<Rightarrow> score_acc" where
  "score_loop i [] acc = acc"
| "score_loop i (claim # rest) acc =
     score_loop (Suc i) rest
       \<lparr> total_supporting = total_supporting acc + length (supporting (sources claim)),
         total_contradicting = total_contradicting acc + length (contradicting (sources claim)),
         total_weight = total_weight acc + position_weight i,
         weighted_sum = weighted_sum acc + final_score claim * position_weight i \<rparr>"

definition calculate_page_score :: "ClaimResult list \<Rightarrow> int" where
  "calculate_page_score claims =
     (if claims = [] then 50
      else
        let acc = score_loop 0 claims
                    \<lparr> total_supporting = 0, total_contradicting = 0,
                      total_weight = 0, weighted_sum = 0 \<rparr>
        in if total_weight acc = 0 then 50
           else
             let base_page_score = py_int ((weighted_sum acc / total_weight acc) * 100);
                 base_page_score =
                   (if total_supporting acc > 0 then
                      (let total_sources = total_supporting acc + total_contradicting acc;
                           global_support_ratio =
                             real (total_supporting acc) / real total_sources
                       in if global_support_ratio \<ge> 0.7 \<and> total_supporting acc \<ge> 5 then
                            base_page_score
                              + py_int (min 10 (2 * ln (real (total_supporting acc))))
                          else if global_support_ratio \<ge> 0.8 \<and> total_supporting acc \<ge> 3 then
                            base_page_score
                              + py_int (min 8 (1.5 * ln (real (total_supporting acc))))
                          else base_page_score)
                    else base_page_score)
             in min 100 (max 0 base_page_score))"

subsection \<open>The reference value of the specification\<close>

text \<open>
  The per-claim contribution, the position-weighted average and the condition of the global
  bonus, written from the specification's sentences and not from the loop.
\<close>

definition spec_verdict_weight :: "Verdict \<Rightarrow> real" where
  "spec_verdict_weight v =
     (case v of STRONGLY_SUPPORTED \<Rightarrow> 1 | SUPPORTED \<Rightarrow> 85 / 100 | MIXED \<Rightarrow> 1 / 2
      | WEAK \<Rightarrow> 35 / 100 | CONTRADICTED \<Rightarrow> 1 / 10 | OUTDATED \<Rightarrow> 4 / 10
      | NOT_VERIFIABLE \<Rightarrow> 1 / 2)"





definition spec_all_supporting :: "ClaimResult list \<Rightarrow> nat" where
  "spec_all_supporting cs = (\<Sum>c\<leftarrow>cs. length (supporting (sources c)))"

definition spec_all_contradicting :: "ClaimResult list \<Rightarrow> nat" where
  "spec_all_contradicting cs = (\<Sum>c\<leftarrow>cs. length (contradicting (sources c)))"


text \<open>The amount the source adds to \<open>base_page_score\<close>, as a function of the two totals.\<close>

definition global_bonus :: "nat \<Rightarrow> nat \<Rightarrow> int" where
  "global_bonus S K =
     (if S > 0 then
        (if real S / real (S + K) \<ge> 0.7 \<and> S \<ge> 5 then py_int (min 10 (2 * ln (real S)))
         else if real S / real (S + K) \<ge> 0.8 \<and> S \<ge> 3 then py_int (min 8 (1.5 * ln (real S)))
         else 0)
      else 0)"

section \<open>Result formatter: \<open>_build_sources\<close> (\<open>agents/explanation.py\<close>)\<close>









section \<open>Evidence ranker (\<open>agents/evidence_ranker.py\<close>)\<close>

text \<open>\<open>settings.MAX_EVIDENCE_PER_CLAIM\<close>, at its default.\<close>

definition MAX_EVIDENCE_PER_CLAIM :: nat where
  "MAX_EVIDENCE_PER_CLAIM = 10"

text \<open>
  \<open>_calculate_recency_score\<close>. The parameter \<open>age_days_of\<close> stands for the \<open>strptime\<close> loop
  over the three formats followed by \<open>(datetime.utcnow() - pub_date).days\<close>: it gives the age
  in days of a date string at the time of the call, or nothing when no format matches. The
  age is negative for a date in the future. (The search providers give the date as a string or
  not at all, so the branch for a date that is no string is left out.) Python raises \<open>OverflowError\<close> for
  \<open>0.5 ** x\<close> once the result leaves the range of a float, which is at \<open>x \<le> -1024\<close>; the
  enclosing \<open>except Exception\<close> turns that into the neutral 0.5.
\<close>

definition calculate_recency_score ::
  "(string \<Rightarrow> int option) \<Rightarrow> string option \<Rightarrow> string \<Rightarrow> real" where
  "calculate_recency_score age_days_of published time_sens =
     (case published of
        None \<Rightarrow> 0.5
      | Some p \<Rightarrow>
          if p = [] then 0.5
          else
            (case age_days_of p of
               None \<Rightarrow> 0.5
             | Some age_days \<Rightarrow>
                 let decay_rate =
                       (if time_sens = ''high'' then 90
                        else if time_sens = ''medium'' then 365
                        else (1000::real));
                     x = real_of_int age_days / decay_rate
                 in if x \<le> - 1024 then 0.5
                    else
                      let score = 1.0 * (0.5 powr x)
                      in max 0.1 (min 1.0 score)))"

text \<open>
  \<open>_get_relevance_score\<close>. \<open>completion\<close> is the chat completion for this call, given the four
  values the prompt is formatted from; it returns the content of the first choice or raises.
  \<open>py_float\<close> is \<open>float(s.strip())\<close>, nothing when it raises \<open>ValueError\<close>. A claim without
  \<open>text\<close> raises \<open>KeyError\<close> inside the \<open>try\<close>. Every failure gives 0.5.
\<close>

definition get_relevance_score ::
  "(string \<Rightarrow> string \<Rightarrow> string \<Rightarrow> string \<Rightarrow> exn + string) \<Rightarrow> (string \<Rightarrow> real option)
     \<Rightarrow> Claim \<Rightarrow> EvidenceItem \<Rightarrow> real" where
  "get_relevance_score completion py_float claim evidence_item =
     (case claim_text claim of
        None \<Rightarrow> 0.5
      | Some t \<Rightarrow>
          (case completion t (py_get (title evidence_item) '''')
                  (py_get (snippet evidence_item) '''') (py_get (domain evidence_item) '''') of
             Inl e \<Rightarrow> 0.5
           | Inr score_text \<Rightarrow>
               (case py_float score_text of
                  None \<Rightarrow> 0.5
                | Some score \<Rightarrow> max 0.0 (min 1.0 score))))"

text \<open>
  \<open>_score_evidence\<close>: the combined score, and the evidence item with its \<open>relevance_score\<close>
  updated.
\<close>

definition score_evidence ::
  "(string \<Rightarrow> string \<Rightarrow> string \<Rightarrow> string \<Rightarrow> exn + string) \<Rightarrow> (string \<Rightarrow> real option)
     \<Rightarrow> (string \<Rightarrow> int option) \<Rightarrow> Claim \<Rightarrow> EvidenceItem \<Rightarrow> real \<times> EvidenceItem" where
  "score_evidence completion py_float age_days_of claim evidence_item =
     (let relevance = get_relevance_score completion py_float claim evidence_item;
          domain_score = py_get (domain_reputation evidence_item) 0.5;
          recency = calculate_recency_score age_days_of (published_at evidence_item)
                      (py_get (time_sensitivity claim) ''low'');
          combined = relevance * 0.5 + domain_score * 0.3 + recency * 0.2
      in (combined, evidence_item\<lparr>relevance_score := relevance\<rparr>))"

text \<open>
  The inner loop of \<open>rank_evidence\<close> over the items of one claim. The language model is
  \<open>llm\<close>; its first argument is the position of the item, so that it may answer two equal
  requests differently.
\<close>

fun score_items ::
  "(nat \<Rightarrow> string \<Rightarrow> string \<Rightarrow> string \<Rightarrow> string \<Rightarrow> exn + string) \<Rightarrow> (string \<Rightarrow> real option)
     \<Rightarrow> (string \<Rightarrow> int option) \<Rightarrow> Claim \<Rightarrow> nat \<Rightarrow> EvidenceItem list \<Rightarrow> EvidenceItem list" where
  "score_items llm py_float age_days_of claim i [] = []"
| "score_items llm py_float age_days_of claim i (item # rest) =
     (case score_evidence (llm i) py_float age_days_of claim item of
        (score, item') \<Rightarrow>
          item'\<lparr>combined_score := Some score\<rparr>
            # score_items llm py_float age_days_of claim (Suc i) rest)"

text \<open>
  The sort key \<open>x["combined_score"]\<close>. Every item that is sorted has just been given the key,
  so the \<open>None\<close> case is never reached.
\<close>

definition combined_key :: "EvidenceItem \<Rightarrow> real" where
  "combined_key x = (case combined_score x of Some s \<Rightarrow> s | None \<Rightarrow> 0)"

text \<open>
  \<open>scored_items.sort(key=..., reverse=True)\<close> is a stable sort in descending order of the key:
  items of equal key keep their order. That is the stable ascending sort on the negated key.
\<close>

definition sort_reverse :: "EvidenceItem list \<Rightarrow> EvidenceItem list" where
  "sort_reverse xs = sort_key (\<lambda>x. - combined_key x) xs"

text \<open>The body of the outer loop for one claim and its evidence.\<close>

definition rank_claim ::
  "nat \<Rightarrow> (nat \<Rightarrow> string \<Rightarrow> string \<Rightarrow> string \<Rightarrow> string \<Rightarrow> exn + string) \<Rightarrow> (string \<Rightarrow> real option)
     \<Rightarrow> (string \<Rightarrow> int option) \<Rightarrow> Claim \<Rightarrow> EvidenceItem list \<Rightarrow> EvidenceItem list" where
  "rank_claim max_evidence llm py_float age_days_of claim evidence_items =
     take max_evidence (sort_reverse (score_items llm py_float age_days_of claim 0 evidence_items))"

text \<open>\<open>{c["id"]: c for c in claims}\<close>\<close>

definition claims_by_id :: "Claim list \<Rightarrow> (string \<rightharpoonup> Claim)" where
  "claims_by_id claims = fold (\<lambda>c m. m(claim_id c \<mapsto> c)) claims Map.empty"

text \<open>
  Dictionaries keyed by claim id are association lists in insertion order; \<open>AList.update\<close>
  replaces the value of a key that is present and appends a new key at the end, as a Python
  \<open>dict\<close> does. The language model of the ranker takes the claim id as well.
\<close>

fun rank_loop ::
  "nat \<Rightarrow> (string \<Rightarrow> nat \<Rightarrow> string \<Rightarrow> string \<Rightarrow> string \<Rightarrow> string \<Rightarrow> exn + string)
     \<Rightarrow> (string \<Rightarrow> real option) \<Rightarrow> (string \<Rightarrow> int option) \<Rightarrow> (string \<rightharpoonup> Claim)
     \<Rightarrow> (string \<times> EvidenceItem list) list \<Rightarrow> (string \<times> EvidenceItem list) list
     \<Rightarrow> (string \<times> EvidenceItem list) list" where
  "rank_loop k llm py_float age_days_of by_id [] ranked = ranked"
| "rank_loop k llm py_float age_days_of by_id ((cid, evidence_items) # rest) ranked =
     (case by_id cid of
        None \<Rightarrow> rank_loop k llm py_float age_days_of by_id rest ranked
      | Some claim \<Rightarrow>
          rank_loop k llm py_float age_days_of by_id rest
            (AList.update cid
               (rank_claim k (llm cid) py_float age_days_of claim evidence_items) ranked))"

definition rank_evidence ::
  "nat \<Rightarrow> (string \<Rightarrow> nat \<Rightarrow> string \<Rightarrow> string \<Rightarrow> string \<Rightarrow> string \<Rightarrow> exn + string)
     \<Rightarrow> (string \<Rightarrow> real option) \<Rightarrow> (string \<Rightarrow> int option)
     \<Rightarrow> Claim list \<Rightarrow> (string \<times> EvidenceItem list) list
     \<Rightarrow> (string \<times> EvidenceItem list) list" where
  "rank_evidence k llm py_float age_days_of claims evidence =
     (if claims = [] \<or> evidence = [] then []
      else rank_loop k llm py_float age_days_of (claims_by_id claims) evidence [])"

text \<open>
  The state of an evidence item after the ranker has scored it for a claim: its combined
  score is the weighted sum of its relevance, its domain reputation and its recency.
\<close>

definition scored_for :: "(string \<Rightarrow> int option) \<Rightarrow> Claim \<Rightarrow> EvidenceItem \<Rightarrow> bool" where
  "scored_for age_days_of claim e \<longleftrightarrow>
     combined_score e =
       Some (relevance_score e * 0.5 + py_get (domain_reputation e) 0.5 * 0.3
             + calculate_recency_score age_days_of (published_at e)
                 (py_get (time_sensitivity claim) ''low'') * 0.2)
     \<and> 0 \<le> relevance_score e \<and> relevance_score e \<le> 1"

text \<open>The assumption on the input: a domain reputation that is present is in the unit interval.\<close>

definition reputation_ok :: "EvidenceItem \<Rightarrow> bool" where
  "reputation_ok e \<longleftrightarrow> 0 \<le> py_get (domain_reputation e) 0.5 \<and> py_get (domain_reputation e) 0.5 \<le> 1"

section \<open>Evidence retriever: \<open>fetch_evidence\<close> (\<open>agents/retrieval.py\<close>)\<close>

text \<open>
  The two nested loops that fill \<open>tasks\<close> and \<open>claim_query_map\<close>: one task per query, in the
  order of the dictionary and of each claim's query list. The type of a query is left open,
  the retriever only passes it on.
\<close>

definition claim_query_tasks :: "(string \<times> 'q list) list \<Rightarrow> (string \<times> 'q) list" where
  "claim_query_tasks queries =
     concat (map (\<lambda>(cid, claim_queries). map (\<lambda>query. (cid, query)) claim_queries)
               queries)"

text \<open>
  \<open>zip(claim_query_map, results)\<close>, where \<open>results\<close> comes from
  \<open>asyncio.gather(..., return_exceptions=True)\<close>: the outcome of the \<open>i\<close>-th search is
  \<open>search i query\<close>, a list of evidence items or the exception it raised. The task number is
  an argument so that the provider may answer one query in two ways.
\<close>

definition gather_results ::
  "(nat \<Rightarrow> 'q \<Rightarrow> exn + EvidenceItem list) \<Rightarrow> (string \<times> 'q list) list
     \<Rightarrow> (string \<times> (exn + EvidenceItem list)) list" where
  "gather_results search queries =
     (let tasks = claim_query_tasks queries
      in zip (map fst tasks) (map (\<lambda>(i, task). search i (snd task)) (enumerate 0 tasks)))"

text \<open>
  \<open>for item in result: if item["url"] not in existing_urls: ...\<close>, on the pair of the
  claim's evidence list and the set \<open>existing_urls\<close>.
\<close>

fun add_results ::
  "EvidenceItem list \<Rightarrow> EvidenceItem list \<times> string set \<Rightarrow> EvidenceItem list \<times> string set" where
  "add_results [] st = st"
| "add_results (item # rest) (items, existing_urls) =
     (if url item \<notin> existing_urls then
        add_results rest (items @ [item], insert (url item) existing_urls)
      else add_results rest (items, existing_urls))"

text \<open>
  The aggregation loop. The lookup \<open>evidence[claim_id]\<close> follows the statement that puts the
  key in, so its \<open>None\<close> case is never reached.
\<close>

fun aggregate ::
  "(string \<times> (exn + EvidenceItem list)) list \<Rightarrow> (string \<times> EvidenceItem list) list
     \<Rightarrow> (string \<times> EvidenceItem list) list" where
  "aggregate [] evidence = evidence"
| "aggregate ((cid, result) # rest) evidence =
     (let evidence1 =
            (if cid \<notin> fst ` set evidence then AList.update cid [] evidence
             else evidence)
      in case result of
           Inl e \<Rightarrow> aggregate rest evidence1
         | Inr found \<Rightarrow>
             let current = (case map_of evidence1 cid of Some xs \<Rightarrow> xs | None \<Rightarrow> []);
                 existing_urls = url ` set current
             in aggregate rest
                  (AList.update cid (fst (add_results found (current, existing_urls)))
                     evidence1))"

definition fetch_evidence ::
  "(nat \<Rightarrow> 'q \<Rightarrow> exn + EvidenceItem list) \<Rightarrow> (string \<times> 'q list) list
     \<Rightarrow> (string \<times> EvidenceItem list) list" where
  "fetch_evidence search queries =
     (if queries = [] then [] else aggregate (gather_results search queries) [])"

subsection \<open>What deduplication should give\<close>

text \<open>
  All items that the successful searches for one claim returned, in the order of the tasks,
  and the list that keeps of each URL the item seen first.
\<close>

definition results_for ::
  "(nat \<Rightarrow> 'q \<Rightarrow> exn + EvidenceItem list) \<Rightarrow> (string \<times> 'q list) list \<Rightarrow> string
     \<Rightarrow> EvidenceItem list" where
  "results_for search queries cid =
     concat (map (\<lambda>(c, r). case r of Inr found \<Rightarrow> if c = cid then found else [] | Inl e \<Rightarrow> [])
               (gather_results search queries))"

fun first_seen :: "EvidenceItem list \<Rightarrow> EvidenceItem list" where
  "first_seen [] = []"
| "first_seen (x # xs) = x # first_seen (filter (\<lambda>y. url y \<noteq> url x) xs)"

text \<open>The same list for any sequence of task outcomes, as used in the invariant of the loop.\<close>

definition stream_of ::
  "(string \<times> (exn + EvidenceItem list)) list \<Rightarrow> string \<Rightarrow> EvidenceItem list" where
  "stream_of pairs cid =
     concat (map (\<lambda>(c, r). case r of Inr found \<Rightarrow> if c = cid then found else [] | Inl e \<Rightarrow> [])
               pairs)"

section \<open>Strings and JSON values\<close>

text \<open>
  \<open>s.find(c)\<close> and \<open>s.rfind(c)\<close> for a single character (\<open>-1\<close> when it does not occur),
  and the slice \<open>s[start:stop]\<close> for indices that are not negative.
\<close>

definition py_find :: "char \<Rightarrow> string \<Rightarrow> int" where
  "py_find c s = (if c \<in> set s then int (length (takeWhile (\<lambda>x. x \<noteq> c) s)) else - 1)"

definition py_rfind :: "char \<Rightarrow> string \<Rightarrow> int" where
  "py_rfind c s =
     (if c \<in> set s then int (length s) - 1 - int (length (takeWhile (\<lambda>x. x \<noteq> c) (rev s)))
      else - 1)"

definition py_slice :: "string \<Rightarrow> int \<Rightarrow> int \<Rightarrow> string" where
  "py_slice s start stop = take (nat stop - nat start) (drop (nat start) s)"

text \<open>\<open>s.lower()\<close>, on the ASCII letters.\<close>

definition py_lower :: "string \<Rightarrow> string" where
  "py_lower s =
     map (\<lambda>c. if 65 \<le> (of_char c :: nat) \<and> (of_char c :: nat) \<le> 90
              then char_of ((of_char c :: nat) + 32) else c) s"

text \<open>
  A decoded JSON value; an object is the association list of its dictionary. The decoder
  \<open>json.loads\<close> is a parameter of the agents. The planner calls it on a text that begins with
  an opening and ends with a closing square bracket, on which it returns a list or raises, so
  the planner's parameter gives a list of values; the verifier calls it on a text between
  braces, on which it returns a dictionary or raises.
\<close>

datatype json =
  JNull | JBool bool | JNum real | JStr string | JArr "json list" | JObj "(string \<times> json) list"

text \<open>
  \<open>float(v)\<close> for a decoded value: a number as it is, a boolean as 1 or 0, a string through
  the parser \<open>py_float\<close> (\<open>ValueError\<close> when it fails), anything else a \<open>TypeError\<close>.
\<close>

fun float_of_json :: "(string \<Rightarrow> real option) \<Rightarrow> json \<Rightarrow> exn + real" where
  "float_of_json py_float (JNum x) = Inr x"
| "float_of_json py_float (JBool b) = Inr (if b then 1 else 0)"
| "float_of_json py_float (JStr s) =
     (case py_float s of None \<Rightarrow> Inl (Exception ''ValueError'') | Some x \<Rightarrow> Inr x)"
| "float_of_json py_float v = Inl (Exception ''TypeError'')"

section \<open>Query planner: \<open>plan_queries\<close> (\<open>agents/query_planner.py\<close>)\<close>

text \<open>
  The body of the \<open>try\<close> for one claim, up to \<open>claim_queries[:3]\<close>. \<open>post\<close> is the HTTP call of
  this iteration with \<open>raise_for_status\<close>, \<open>response.json()\<close> and the path to the content:
  given the three values the prompt is formatted from, it returns the content or raises.
\<close>

definition plan_claim ::
  "(string \<Rightarrow> exn + json list) \<Rightarrow> (string \<Rightarrow> string \<Rightarrow> string \<Rightarrow> exn + string) \<Rightarrow> string
     \<Rightarrow> Claim \<Rightarrow> exn + json list" where
  "plan_claim loads post vertical claim =
     (case claim_text claim of
        None \<Rightarrow> Inl (Exception ''KeyError'')
      | Some t \<Rightarrow>
          (case post t (py_get (topic claim) vertical) (py_get (claim_type claim) ''general'') of
             Inl e \<Rightarrow> Inl e
           | Inr content \<Rightarrow>
               let start = py_find CHR ''['' content;
                   stop = py_rfind CHR '']'' content + 1
               in if start \<ge> 0 \<and> stop > start then
                    (case loads (py_slice content start stop) of
                       Inl e \<Rightarrow> Inl e
                     | Inr claim_queries \<Rightarrow> Inr (take 3 claim_queries))
                  else Inr (take 3 [JStr (take 100 t)])))"

text \<open>
  The loop over the claims. The handler's \<open>claim["text"][:100]\<close> raises again for a claim
  without text, and nothing catches that inside \<open>plan_queries\<close>.
\<close>

fun plan_loop ::
  "(string \<Rightarrow> exn + json list) \<Rightarrow> (nat \<Rightarrow> string \<Rightarrow> string \<Rightarrow> string \<Rightarrow> exn + string) \<Rightarrow> string
     \<Rightarrow> nat \<Rightarrow> Claim list \<Rightarrow> (string \<times> json list) list \<Rightarrow> exn + (string \<times> json list) list" where
  "plan_loop loads post vertical i [] queries = Inr queries"
| "plan_loop loads post vertical i (claim # rest) queries =
     (case plan_claim loads (post i) vertical claim of
        Inr claim_queries \<Rightarrow>
          plan_loop loads post vertical (Suc i) rest
            (AList.update (claim_id claim) claim_queries queries)
      | Inl e \<Rightarrow>
          (case claim_text claim of
             None \<Rightarrow> Inl (Exception ''KeyError'')
           | Some t \<Rightarrow>
               plan_loop loads post vertical (Suc i) rest
                 (AList.update (claim_id claim) [JStr (take 100 t)] queries)))"

definition plan_queries ::
  "(string \<Rightarrow> exn + json list) \<Rightarrow> (nat \<Rightarrow> string \<Rightarrow> string \<Rightarrow> string \<Rightarrow> exn + string)
     \<Rightarrow> Claim list \<Rightarrow> string \<Rightarrow> exn + (string \<times> json list) list" where
  "plan_queries loads post claims vertical =
     (if claims = [] then Inr [] else plan_loop loads post vertical 0 claims [])"

section \<open>Verifier: \<open>verify_claims\<close> (\<open>agents/verification.py\<close>)\<close>

text \<open>
  The dictionary that \<open>_verify_single_claim\<close> returns, in the keys it normalises, and the
  verdict of \<open>verify_claims\<close>, which has the claim id as well.
\<close>

record SingleVerdict =
  vd_verdict :: string
  vd_confidence :: real
  vd_reasoning :: json
  vd_supporting_sources :: json
  vd_contradicting_sources :: json
  vd_model_used :: string

record VerdictData = SingleVerdict +
  vd_claim_id :: string

text \<open>\<open>verdict["claim_id"] = claim_id\<close>\<close>

definition with_claim_id :: "SingleVerdict \<Rightarrow> string \<Rightarrow> VerdictData" where
  "with_claim_id v cid =
     \<lparr> vd_verdict = vd_verdict v, vd_confidence = vd_confidence v,
       vd_reasoning = vd_reasoning v, vd_supporting_sources = vd_supporting_sources v,
       vd_contradicting_sources = vd_contradicting_sources v,
       vd_model_used = vd_model_used v, vd_claim_id = cid \<rparr>"

text \<open>\<open>result.get("verdict", "not_verifiable").lower()\<close>: only a string has \<open>lower\<close>.\<close>

definition verdict_of_result :: "(string \<times> json) list \<Rightarrow> exn + string" where
  "verdict_of_result result =
     (case map_of result ''verdict'' of
        None \<Rightarrow> Inr (py_lower ''not_verifiable'')
      | Some (JStr s) \<Rightarrow> Inr (py_lower s)
      | Some v \<Rightarrow> Inl (Exception ''AttributeError''))"

text \<open>
  \<open>_verify_single_claim\<close>. \<open>chat\<close> is the chat completion of this call: given the claim's
  text and the evidence items that the prompt shows (at most five, none for the marker
  \<open>No evidence found\<close>), it returns the content of the answer or raises.
\<close>

definition verify_single_claim ::
  "(string \<Rightarrow> exn + (string \<times> json) list) \<Rightarrow> (string \<Rightarrow> real option)
     \<Rightarrow> (string \<Rightarrow> EvidenceItem list \<Rightarrow> exn + string) \<Rightarrow> string
     \<Rightarrow> Claim \<Rightarrow> EvidenceItem list \<Rightarrow> exn + SingleVerdict" where
  "verify_single_claim loads py_float chat model claim evidence =
     (case claim_text claim of
        None \<Rightarrow> Inl (Exception ''KeyError'')
      | Some t \<Rightarrow>
          (case chat t (take 5 evidence) of
             Inl e \<Rightarrow> Inl e
           | Inr content \<Rightarrow>
               let start = py_find CHR ''{'' content;
                   stop = py_rfind CHR ''}'' content + 1
               in if start \<ge> 0 \<and> stop > start then
                    (case loads (py_slice content start stop) of
                       Inl e \<Rightarrow> Inl e
                     | Inr result \<Rightarrow>
                         (case verdict_of_result result of
                            Inl e \<Rightarrow> Inl e
                          | Inr v \<Rightarrow>
                              (case float_of_json py_float
                                      (py_get (map_of result ''confidence'') (JNum 0.5)) of
                                 Inl e \<Rightarrow> Inl e
                               | Inr c \<Rightarrow>
                                   Inr \<lparr> vd_verdict = v,
                                         vd_confidence = max 0.0 (min 1.0 c),
                                         vd_reasoning =
                                           py_get (map_of result ''reasoning'') (JStr ''''),
                                         vd_supporting_sources =
                                           py_get (map_of result ''supporting_sources'') (JArr []),
                                         vd_contradicting_sources =
                                           py_get (map_of result ''contradicting_sources'')
                                             (JArr []),
                                         vd_model_used = model \<rparr>)))
                  else Inl (Exception ''Could not parse verdict JSON'')))"

text \<open>The fallback verdict of the \<open>except\<close> branch.\<close>

definition fallback_verdict :: "string \<Rightarrow> string \<Rightarrow> VerdictData" where
  "fallback_verdict cid model =
     \<lparr> vd_verdict = ''not_verifiable'', vd_confidence = 0.0,
       vd_reasoning = JStr ''Verification failed due to an error.'',
       vd_supporting_sources = JArr [], vd_contradicting_sources = JArr [],
       vd_model_used = model, vd_claim_id = cid \<rparr>"

text \<open>The loop of \<open>verify_claims\<close>; the language model takes the position of the claim.\<close>

fun verify_loop ::
  "(string \<Rightarrow> exn + (string \<times> json) list) \<Rightarrow> (string \<Rightarrow> real option)
     \<Rightarrow> (nat \<Rightarrow> string \<Rightarrow> EvidenceItem list \<Rightarrow> exn + string) \<Rightarrow> string
     \<Rightarrow> (string \<times> EvidenceItem list) list \<Rightarrow> nat \<Rightarrow> Claim list \<Rightarrow> VerdictData list
     \<Rightarrow> VerdictData list" where
  "verify_loop loads py_float llm model evidence i [] verdicts = verdicts"
| "verify_loop loads py_float llm model evidence i (claim # rest) verdicts =
     (let cid = claim_id claim;
          claim_evidence = py_get (map_of evidence cid) []
      in case verify_single_claim loads py_float (llm i) model claim claim_evidence of
           Inr v \<Rightarrow>
             verify_loop loads py_float llm model evidence (Suc i) rest
               (verdicts @ [with_claim_id v cid])
         | Inl e \<Rightarrow>
             verify_loop loads py_float llm model evidence (Suc i) rest
               (verdicts @ [fallback_verdict cid model]))"

definition verify_claims ::
  "(string \<Rightarrow> exn + (string \<times> json) list) \<Rightarrow> (string \<Rightarrow> real option)
     \<Rightarrow> (nat \<Rightarrow> string \<Rightarrow> EvidenceItem list \<Rightarrow> exn + string) \<Rightarrow> string
     \<Rightarrow> Claim list \<Rightarrow> (string \<times> EvidenceItem list) list \<Rightarrow> VerdictData list" where
  "verify_claims loads py_float llm model claims evidence =
     (if claims = [] then []
      else verify_loop loads py_float llm model evidence 0 claims [])"

text \<open>The verdict that one iteration of the loop of \<open>verify_claims\<close> appends.\<close>

definition verdict_for ::
  "(string \<Rightarrow> exn + (string \<times> json) list) \<Rightarrow> (string \<Rightarrow> real option)
     \<Rightarrow> (string \<Rightarrow> EvidenceItem list \<Rightarrow> exn + string) \<Rightarrow> string
     \<Rightarrow> (string \<times> EvidenceItem list) list \<Rightarrow> Claim \<Rightarrow> VerdictData" where
  "verdict_for loads py_float chat model evidence claim =
     (case verify_single_claim loads py_float chat model claim
             (py_get (map_of evidence (claim_id claim)) []) of
        Inr v \<Rightarrow> with_claim_id v (claim_id claim)
      | Inl e \<Rightarrow> fallback_verdict (claim_id claim) model)"

section \<open>Pipeline orchestrator (\<open>agents/pipeline.py\<close>)\<close>

text \<open>
  The state dictionary of the graph. The keys \<open>url\<close>, \<open>vertical\<close>, \<open>verdicts\<close> and \<open>claims\<close>
  carry the prefix \<open>state\<close> here.
\<close>

record PipelineState =
  raw_text :: string
  state_url :: "string option"
  state_vertical :: string
  language :: string
  clean_text :: string
  word_count :: nat
  extracted_claims :: "Claim list"
  verifiable_claims :: "Claim list"
  search_queries :: "(string \<times> json list) list"
  raw_evidence :: "(string \<times> EvidenceItem list) list"
  ranked_evidence :: "(string \<times> EvidenceItem list) list"
  state_verdicts :: "VerdictData list"
  state_claims :: "ClaimResult list"
  models_used :: "string list"
  sources_checked :: nat
  errors :: "string list"

text \<open>
  The eight agents that the pipeline holds, each as the method that the pipeline calls: a
  function from the arguments of the call to its result or to the exception it raises. The
  theorems about the orchestrator quantify over these functions, so they cover every
  behaviour of the agents, of the language model and of the search behind them.
\<close>

record Agents =
  ingestion_process :: "string \<Rightarrow> exn + (string \<times> nat)"
  extract_claims :: "string \<Rightarrow> string \<Rightarrow> exn + Claim list"
  filter_claims :: "Claim list \<Rightarrow> exn + Claim list"
  agent_plan_queries :: "Claim list \<Rightarrow> string \<Rightarrow> exn + (string \<times> json list) list"
  agent_fetch_evidence ::
    "(string \<times> json list) list \<Rightarrow> exn + (string \<times> EvidenceItem list) list"
  agent_rank_evidence ::
    "Claim list \<Rightarrow> (string \<times> EvidenceItem list) list
       \<Rightarrow> exn + (string \<times> EvidenceItem list) list"
  agent_verify_claims ::
    "Claim list \<Rightarrow> (string \<times> EvidenceItem list) list \<Rightarrow> exn + VerdictData list"
  format_results ::
    "Claim list \<Rightarrow> VerdictData list \<Rightarrow> (string \<times> EvidenceItem list) list
       \<Rightarrow> exn + ClaimResult list"

text \<open>\<open>settings.LLM_MODEL\<close>, at its default.\<close>

definition LLM_MODEL :: string where
  "LLM_MODEL = ''llama-3.3-70b-versatile''"

text \<open>
  The eight nodes. A node of the graph may return a state or raise, so its result is a sum;
  each \<open>try\<close> is the case distinction on the outcome of the agent's call, and the \<open>except\<close>
  branch is the \<open>Inl\<close> case.
\<close>

definition run_ingestion :: "Agents \<Rightarrow> PipelineState \<Rightarrow> exn + PipelineState" where
  "run_ingestion ag state =
     (case ingestion_process ag (raw_text state) of
        Inr result \<Rightarrow> Inr (state\<lparr>clean_text := fst result, word_count := snd result\<rparr>)
      | Inl e \<Rightarrow>
          Inr (state\<lparr>errors := errors state @ [''Ingestion error: '' @ str_exn e],
                     clean_text := raw_text state\<rparr>))"

definition run_claim_decomposition :: "Agents \<Rightarrow> PipelineState \<Rightarrow> exn + PipelineState" where
  "run_claim_decomposition ag state =
     (case extract_claims ag (clean_text state) (state_vertical state) of
        Inr extracted \<Rightarrow>
          Inr (state\<lparr>extracted_claims := extracted,
                     models_used := models_used state @ [LLM_MODEL]\<rparr>)
      | Inl e \<Rightarrow>
          Inr (state\<lparr>errors := errors state @ [''Claim decomposition error: '' @ str_exn e],
                     extracted_claims := []\<rparr>))"

definition run_claim_classification :: "Agents \<Rightarrow> PipelineState \<Rightarrow> exn + PipelineState" where
  "run_claim_classification ag state =
     (case filter_claims ag (extracted_claims state) of
        Inr verifiable \<Rightarrow> Inr (state\<lparr>verifiable_claims := verifiable\<rparr>)
      | Inl e \<Rightarrow>
          Inr (state\<lparr>errors := errors state @ [''Classification error: '' @ str_exn e],
                     verifiable_claims := extracted_claims state\<rparr>))"

definition run_query_planning :: "Agents \<Rightarrow> PipelineState \<Rightarrow> exn + PipelineState" where
  "run_query_planning ag state =
     (case agent_plan_queries ag (verifiable_claims state) (state_vertical state) of
        Inr queries \<Rightarrow> Inr (state\<lparr>search_queries := queries\<rparr>)
      | Inl e \<Rightarrow>
          Inr (state\<lparr>errors := errors state @ [''Query planning error: '' @ str_exn e]\<rparr>))"

definition run_retrieval :: "Agents \<Rightarrow> PipelineState \<Rightarrow> exn + PipelineState" where
  "run_retrieval ag state =
     (case agent_fetch_evidence ag (search_queries state) of
        Inr evidence \<Rightarrow>
          (let total_sources = sum_list (map (\<lambda>entry. length (snd entry)) evidence)
           in Inr (state\<lparr>raw_evidence := evidence, sources_checked := total_sources\<rparr>))
      | Inl e \<Rightarrow>
          Inr (state\<lparr>errors := errors state @ [''Retrieval error: '' @ str_exn e]\<rparr>))"

definition run_evidence_ranking :: "Agents \<Rightarrow> PipelineState \<Rightarrow> exn + PipelineState" where
  "run_evidence_ranking ag state =
     (case agent_rank_evidence ag (verifiable_claims state) (raw_evidence state) of
        Inr ranked \<Rightarrow> Inr (state\<lparr>ranked_evidence := ranked\<rparr>)
      | Inl e \<Rightarrow>
          Inr (state\<lparr>errors := errors state @ [''Ranking error: '' @ str_exn e],
                     ranked_evidence := raw_evidence state\<rparr>))"

definition run_verification :: "Agents \<Rightarrow> PipelineState \<Rightarrow> exn + PipelineState" where
  "run_verification ag state =
     (case agent_verify_claims ag (verifiable_claims state) (ranked_evidence state) of
        Inr vs \<Rightarrow> Inr (state\<lparr>state_verdicts := vs\<rparr>)
      | Inl e \<Rightarrow>
          Inr (state\<lparr>errors := errors state @ [''Verification error: '' @ str_exn e]\<rparr>))"

definition run_explanation :: "Agents \<Rightarrow> PipelineState \<Rightarrow> exn + PipelineState" where
  "run_explanation ag state =
     (case format_results ag (verifiable_claims state) (state_verdicts state)
             (ranked_evidence state) of
        Inr formatted \<Rightarrow> Inr (state\<lparr>state_claims := formatted\<rparr>)
      | Inl e \<Rightarrow>
          Inr (state\<lparr>errors := errors state @ [''Explanation error: '' @ str_exn e],
                     state_claims := []\<rparr>))"

text \<open>
  The compiled graph: the nodes in the order of the edges, the state of one handed to the
  next. A node that raised would end the run with its exception. (The merging of the
  \<open>errors\<close> channel by the graph library is outside the repository and not modelled.)
\<close>

definition then_node ::
  "exn + PipelineState \<Rightarrow> (PipelineState \<Rightarrow> exn + PipelineState) \<Rightarrow> exn + PipelineState" where
  "then_node r node = (case r of Inl e \<Rightarrow> Inl e | Inr state \<Rightarrow> node state)"

definition ainvoke :: "Agents \<Rightarrow> PipelineState \<Rightarrow> exn + PipelineState" where
  "ainvoke ag initial_state =
     then_node (then_node (then_node (then_node (then_node (then_node (then_node
       (run_ingestion ag initial_state)
       (run_claim_decomposition ag))
       (run_claim_classification ag))
       (run_query_planning ag))
       (run_retrieval ag))
       (run_evidence_ranking ag))
       (run_verification ag))
       (run_explanation ag)"

definition initial_state :: "string \<Rightarrow> string option \<Rightarrow> string \<Rightarrow> string \<Rightarrow> PipelineState" where
  "initial_state txt u vert lang =
     \<lparr> raw_text = txt, state_url = u, state_vertical = vert, language = lang,
       clean_text = [], word_count = 0, extracted_claims = [], verifiable_claims = [],
       search_queries = [], raw_evidence = [], ranked_evidence = [], state_verdicts = [],
       state_claims = [], models_used = [], sources_checked = 0, errors = [] \<rparr>"

record RunResult =
  result_claims :: "ClaimResult list"
  result_models_used :: "string list"
  result_sources_checked :: nat

text \<open>\<open>VerificationPipeline.run\<close>\<close>

definition run :: "Agents \<Rightarrow> string \<Rightarrow> string option \<Rightarrow> string \<Rightarrow> string \<Rightarrow> exn + RunResult" where
  "run ag txt u vert lang =
     (case ainvoke ag (initial_state txt u vert lang) of
        Inl e \<Rightarrow> Inl e
      | Inr final_state \<Rightarrow>
          Inr \<lparr> result_claims = state_claims final_state,
                result_models_used = models_used final_state,
                result_sources_checked = sources_checked final_state \<rparr>)"

text \<open>
  \<open>VerificationService.verify\<close>, where the ninth stage of the specification, the score
  aggregator, runs after the pipeline: it calls \<open>_calculate_page_score\<close> on the claims of the
  run. (The summary of verdict counts is left out.)
\<close>

record ServiceResult = RunResult +
  page_score :: int

definition service_verify ::
  "Agents \<Rightarrow> string \<Rightarrow> string option \<Rightarrow> string \<Rightarrow> string \<Rightarrow> exn + ServiceResult" where
  "service_verify ag txt u vert lang =
     (case run ag txt u vert lang of
        Inl e \<Rightarrow> Inl e
      | Inr result \<Rightarrow>
          Inr \<lparr> result_claims = result_claims result,
                result_models_used = result_models_used result,
                result_sources_checked = result_sources_checked result,
                page_score = calculate_page_score (result_claims result) \<rparr>)"

subsection \<open>Statements about a run\<close>

text \<open>
  A run has come to its end with a state; every ranked evidence list of that state has at
  most \<open>k\<close> items; the ranked evidence of that state is its raw evidence.
\<close>

definition run_completes :: "exn + PipelineState \<Rightarrow> bool" where
  "run_completes r = (case r of Inl e \<Rightarrow> False | Inr final_state \<Rightarrow> True)"

definition run_ranked_within_limit :: "nat \<Rightarrow> exn + PipelineState \<Rightarrow> bool" where
  "run_ranked_within_limit k r =
     (case r of
        Inl e \<Rightarrow> False
      | Inr final_state \<Rightarrow>
          list_all (\<lambda>entry. length (snd entry) \<le> k) (ranked_evidence final_state))"

definition run_ranked_is_raw :: "exn + PipelineState \<Rightarrow> bool" where
  "run_ranked_is_raw r =
     (case r of
        Inl e \<Rightarrow> False
      | Inr final_state \<Rightarrow> ranked_evidence final_state = raw_evidence final_state)"

section \<open>Example inputs\<close>

definition example_source :: SourceInfo where
  "example_source =
     \<lparr> si_url = ''https://example.com/a'', si_domain = ''example.com'', si_snippet = ''s'',
       domain_score = 0.6, si_published_at = None, role = SUPPORTING \<rparr>"

definition example_claim :: ClaimResult where
  "example_claim =
     \<lparr> cr_id = ''clm_1'', span = [0, 20], cr_text = ''claim text here'',
       cr_claim_type = NUMERIC, cr_topic = SAAS, cr_time_sensitivity = HIGH,
       verdict = STRONGLY_SUPPORTED, confidence = 1, reasoning = ''r'',
       sources = \<lparr> supporting = replicate 10 example_source, contradicting = [] \<rparr> \<rparr>"

definition example_claim_contradicted :: ClaimResult where
  "example_claim_contradicted =
     example_claim \<lparr> verdict := CONTRADICTED, confidence := 1 / 2,
       sources := \<lparr> supporting = [], contradicting = [] \<rparr> \<rparr>"


definition example_item :: "string \<Rightarrow> EvidenceItem" where
  "example_item u =
     \<lparr> url = u, title = Some ''Article'', snippet = Some ''text'',
       domain = Some ''example.com'', published_at = None, relevance_score = 0.5,
       domain_reputation = Some 0.5, combined_score = None \<rparr>"





definition example_age_days_of :: "string \<Rightarrow> int option" where
  "example_age_days_of s =
     (if s = ''2024-01-15'' then Some 90 else if s = ''2023-01-15'' then Some 455 else None)"

definition example_Claim :: Claim where
  "example_Claim =
     \<lparr> claim_id = ''clm_1'', claim_text = Some ''Used by over 10,000 teams'',
       claim_type = Some ''numeric'', topic = Some ''saas'', time_sensitivity = Some ''high'',
       span_start = Some 0, span_end = Some 25, is_verifiable = True \<rparr>"

definition example_titled :: "string \<Rightarrow> EvidenceItem" where
  "example_titled t = (example_item (''https://a.example.com/'' @ t)) \<lparr> title := Some t \<rparr>"

text \<open>A language model that rates one title high, fails on another and rates the rest low.\<close>

definition example_relevance_llm ::
  "string \<Rightarrow> nat \<Rightarrow> string \<Rightarrow> string \<Rightarrow> string \<Rightarrow> string \<Rightarrow> exn + string" where
  "example_relevance_llm cid i t ttl snip dmn =
     (if ttl = ''B'' then Inr ''0.9''
      else if ttl = ''C'' then Inl (Exception ''timeout'')
      else Inr ''0.2'')"

definition example_py_float :: "string \<Rightarrow> real option" where
  "example_py_float s =
     (if s = ''0.9'' then Some 0.9 else if s = ''0.2'' then Some 0.2 else None)"

definition example_ranked :: "EvidenceItem list" where
  "example_ranked =
     [(example_titled ''B'') \<lparr> relevance_score := 0.9, combined_score := Some 0.7 \<rparr>,
      (example_titled ''C'') \<lparr> relevance_score := 0.5, combined_score := Some 0.5 \<rparr>]"

definition example_found :: "string \<Rightarrow> string \<Rightarrow> EvidenceItem" where
  "example_found u t = (example_item u) \<lparr> title := Some t \<rparr>"

text \<open>
  Three searches for one claim: the first finds two pages, the second fails, the third finds
  one of the two pages again, under another title, and a new one.
\<close>

definition example_search :: "nat \<Rightarrow> string \<Rightarrow> exn + EvidenceItem list" where
  "example_search i q =
     (if i = 0 then Inr [example_found ''https://a.org/1'' ''first'',
                          example_found ''https://a.org/2'' ''first'']
      else if i = 1 then Inl (Exception ''timeout'')
      else Inr [example_found ''https://a.org/2'' ''second'',
                example_found ''https://a.org/3'' ''second''])"

definition example_fetched :: "EvidenceItem list" where
  "example_fetched =
     [example_found ''https://a.org/1'' ''first'', example_found ''https://a.org/2'' ''first'',
      example_found ''https://a.org/3'' ''second'']"

text \<open>A decoder that reads the empty array and rejects every other text.\<close>

definition example_loads_array :: "string \<Rightarrow> exn + json list" where
  "example_loads_array s = (if s = ''[]'' then Inr [] else Inl (Exception ''JSONDecodeError''))"

definition example_Claim_2 :: Claim where
  "example_Claim_2 = example_Claim \<lparr> claim_id := ''clm_2'' \<rparr>"

text \<open>
  A language model that answers the first claim with a verdict in capital letters and a
  confidence above one, and fails on the second; and a decoder for that one answer.
\<close>

definition example_chat :: "nat \<Rightarrow> string \<Rightarrow> EvidenceItem list \<Rightarrow> exn + string" where
  "example_chat i t ev =
     (if i = 0 then Inr ''Here is the verdict: {v} as asked'' else Inl (Exception ''timeout''))"

definition example_loads_object :: "string \<Rightarrow> exn + (string \<times> json) list" where
  "example_loads_object s =
     (if s = ''{v}'' then Inr [(''verdict'', JStr ''SUPPORTED''), (''confidence'', JNum 1.7)]
      else Inl (Exception ''JSONDecodeError''))"

definition example_verdicts :: "VerdictData list" where
  "example_verdicts =
     [\<lparr> vd_verdict = ''supported'', vd_confidence = 1, vd_reasoning = JStr [],
         vd_supporting_sources = JArr [], vd_contradicting_sources = JArr [],
         vd_model_used = ''llama'', vd_claim_id = ''clm_1'' \<rparr>,
      \<lparr> vd_verdict = ''not_verifiable'', vd_confidence = 0,
         vd_reasoning = JStr ''Verification failed due to an error.'',
         vd_supporting_sources = JArr [], vd_contradicting_sources = JArr [],
         vd_model_used = ''llama'', vd_claim_id = ''clm_2'' \<rparr>]"

text \<open>Agents that all raise, and the state a run with them ends in.\<close>

definition failing_agents :: Agents where
  "failing_agents =
     \<lparr> ingestion_process = (\<lambda>t. Inl (Exception ''down'')),
       extract_claims = (\<lambda>t v. Inl (Exception ''down'')),
       filter_claims = (\<lambda>cs. Inl (Exception ''down'')),
       agent_plan_queries = (\<lambda>cs v. Inl (Exception ''down'')),
       agent_fetch_evidence = (\<lambda>qs. Inl (Exception ''down'')),
       agent_rank_evidence = (\<lambda>cs ev. Inl (Exception ''down'')),
       agent_verify_claims = (\<lambda>cs ev. Inl (Exception ''down'')),
       format_results = (\<lambda>cs vs ev. Inl (Exception ''down'')) \<rparr>"

definition example_state :: PipelineState where
  "example_state = initial_state ''Some text to verify'' None ''general'' ''en''"

definition failing_final_state :: PipelineState where
  "failing_final_state =
     example_state
       \<lparr> clean_text := ''Some text to verify'',
         errors :=
           [''Ingestion error: down'', ''Claim decomposition error: down'',
            ''Classification error: down'', ''Query planning error: down'',
            ''Retrieval error: down'', ''Ranking error: down'',
            ''Verification error: down'', ''Explanation error: down''] \<rparr>"

text \<open>
  A run in which the retriever has found eleven pages for the one claim and the ranker then
  fails.
\<close>

definition eleven_items :: "EvidenceItem list" where
  "eleven_items =
     map example_titled
       [''a'', ''b'', ''c'', ''d'', ''e'', ''f'', ''g'', ''h'', ''i'', ''j'', ''k'']"

definition ranker_fails_agents :: Agents where
  "ranker_fails_agents =
     \<lparr> ingestion_process = (\<lambda>t. Inr (t, 4)),
       extract_claims = (\<lambda>t v. Inr [example_Claim]),
       filter_claims = (\<lambda>cs. Inr cs),
       agent_plan_queries =
         (\<lambda>cs v. Inr [(''clm_1'', [JStr ''teams'', JStr ''10,000 teams'', JStr ''users''])]),
       agent_fetch_evidence = (\<lambda>qs. Inr [(''clm_1'', eleven_items)]),
       agent_rank_evidence = (\<lambda>cs ev. Inl (Exception ''down'')),
       agent_verify_claims = (\<lambda>cs ev. Inr []),
       format_results = (\<lambda>cs vs ev. Inr []) \<rparr>"

text \<open>Agents whose ranker is \<open>rank_evidence\<close> with the maximum 2 and the example language model.\<close>

definition ranker_works_agents :: Agents where
  "ranker_works_agents =
     ranker_fails_agents
       \<lparr> agent_rank_evidence :=
           (\<lambda>cs ev. Inr (rank_evidence 2 example_relevance_llm example_py_float (\<lambda>s. None) cs ev)) \<rparr>"

section \<open>Properties of the score aggregator\<close>

lemma verdict_score_eq: "verdict_score v = spec_verdict_weight v"
  by (cases v) (simp_all add: verdict_score_def verdict_weights_def spec_verdict_weight_def)


lemma position_weight_pos: "1 \<le> position_weight i"
  by (simp add: position_weight_def)

lemma verdict_score_bounds: "0 < verdict_score v \<and> verdict_score v \<le> 1"
  by (cases v) (simp_all add: verdict_score_eq spec_verdict_weight_def)

lemma score_loop_eq:
  "score_loop i cs acc =
     \<lparr> total_supporting = total_supporting acc + (\<Sum>c\<leftarrow>cs. length (supporting (sources c))),
       total_contradicting = total_contradicting acc + (\<Sum>c\<leftarrow>cs. length (contradicting (sources c))),
       total_weight = total_weight acc + (\<Sum>j<length cs. position_weight (i + j)),
       weighted_sum = weighted_sum acc + (\<Sum>j<length cs. final_score (cs ! j) * position_weight (i + j)) \<rparr>"
proof (induction cs arbitrary: i acc)
  case Nil
  show ?case by simp
next
  case (Cons c cs)
  show ?case
    by (simp add: Cons.IH sum.lessThan_Suc_shift add.assoc del: sum.lessThan_Suc)
qed




lemma py_int_mono: "x \<le> y \<Longrightarrow> py_int x \<le> py_int y"
proof -
  assume xy: "x \<le> y"
  have a: "\<lfloor>x\<rfloor> \<le> \<lfloor>y\<rfloor>" "\<lceil>x\<rceil> \<le> \<lceil>y\<rceil>"
    using xy by (simp_all add: floor_mono ceiling_mono)
  have b: "y < 0 \<Longrightarrow> \<lceil>x\<rceil> \<le> \<lceil>y\<rceil>" using a by simp
  have c: "x < 0 \<Longrightarrow> 0 \<le> y \<Longrightarrow> \<lceil>x\<rceil> \<le> \<lfloor>y\<rfloor>"
  proof -
    assume "x < 0" "0 \<le> y"
    then have "\<lceil>x\<rceil> \<le> 0" "0 \<le> \<lfloor>y\<rfloor>" by (simp_all add: ceiling_le_iff)
    then show ?thesis by linarith
  qed
  show ?thesis using xy a c by (auto simp: py_int_def)
qed




lemma score_loop_init:
  "score_loop 0 cs \<lparr> total_supporting = 0, total_contradicting = 0,
                      total_weight = 0, weighted_sum = 0 \<rparr> =
   \<lparr> total_supporting = spec_all_supporting cs,
     total_contradicting = spec_all_contradicting cs,
     total_weight = (\<Sum>j<length cs. position_weight j),
     weighted_sum = (\<Sum>j<length cs. final_score (cs ! j) * position_weight j) \<rparr>"
  by (simp add: score_loop_eq spec_all_supporting_def spec_all_contradicting_def)

lemma total_weight_pos:
  assumes "cs \<noteq> []"
  shows "0 < (\<Sum>j<length cs. position_weight j)"
proof (rule sum_pos)
  show "finite {..<length cs}" by simp
  show "{..<length cs} \<noteq> {}" using assms by auto
  fix j show "0 < position_weight j" using position_weight_pos [of j] by linarith
qed

lemma calculate_page_score_unfold:
  assumes "cs \<noteq> []"
  shows "calculate_page_score cs =
     min 100 (max 0
       (py_int (((\<Sum>j<length cs. final_score (cs ! j) * position_weight j)
                 / (\<Sum>j<length cs. position_weight j)) * 100)
        + global_bonus (spec_all_supporting cs) (spec_all_contradicting cs)))"
proof -
  have nz: "(\<Sum>j<length cs. position_weight j) \<noteq> 0"
    using total_weight_pos [OF assms] by simp
  show ?thesis
    unfolding calculate_page_score_def score_loop_init Let_def global_bonus_def
    using assms nz by simp
qed




lemma final_score_mono_confidence:
  assumes "x \<le> y"
  shows "final_score (c\<lparr>confidence := x\<rparr>) \<le> final_score (c\<lparr>confidence := y\<rparr>)"
proof -
  have "verdict_score (verdict c) * x \<le> verdict_score (verdict c) * y"
    using assms verdict_score_bounds [of "verdict c"] by (simp add: mult_left_mono)
  then show ?thesis
    by (simp add: final_score_def Let_def min_def)
qed

lemma final_score_mono_verdict:
  assumes "0 \<le> confidence c" "verdict_score v \<le> verdict_score v'"
  shows "final_score (c\<lparr>verdict := v\<rparr>) \<le> final_score (c\<lparr>verdict := v'\<rparr>)"
proof -
  have "verdict_score v * confidence c \<le> verdict_score v' * confidence c"
    using assms by (simp add: mult_right_mono)
  then show ?thesis
    by (simp add: final_score_def Let_def min_def)
qed

lemma calculate_page_score_mono:
  assumes len: "length cs = length cs'"
    and src: "\<And>j. j < length cs \<Longrightarrow> sources (cs ! j) = sources (cs' ! j)"
    and fs: "\<And>j. j < length cs \<Longrightarrow> final_score (cs ! j) \<le> final_score (cs' ! j)"
  shows "calculate_page_score cs \<le> calculate_page_score cs'"
proof (cases "cs = []")
  case True
  then show ?thesis using len by simp
next
  case False
  then have ne': "cs' \<noteq> []" using len by auto
  have "map sources cs = map sources cs'"
    using len src by (simp add: list_eq_iff_nth_eq)
  then have eqs: "map (\<lambda>c. length (supporting (sources c))) cs
        = map (\<lambda>c. length (supporting (sources c))) cs'"
      "map (\<lambda>c. length (contradicting (sources c))) cs
        = map (\<lambda>c. length (contradicting (sources c))) cs'"
    using len src by (simp_all add: list_eq_iff_nth_eq)
  have S: "spec_all_supporting cs = spec_all_supporting cs'"
    and K: "spec_all_contradicting cs = spec_all_contradicting cs'"
    using eqs by (simp_all add: spec_all_supporting_def spec_all_contradicting_def)
  have num: "(\<Sum>j<length cs. final_score (cs ! j) * position_weight j)
      \<le> (\<Sum>j<length cs. final_score (cs' ! j) * position_weight j)"
  proof (rule sum_mono)
    fix j assume "j \<in> {..<length cs}"
    then have "final_score (cs ! j) \<le> final_score (cs' ! j)" using fs by simp
    moreover have "0 \<le> position_weight j" using position_weight_pos [of j] by linarith
    ultimately show "final_score (cs ! j) * position_weight j
        \<le> final_score (cs' ! j) * position_weight j"
      by (rule mult_right_mono)
  qed
  have den: "0 < (\<Sum>j<length cs. position_weight j)" by (rule total_weight_pos [OF False])
  have "(\<Sum>j<length cs. final_score (cs ! j) * position_weight j)
          / (\<Sum>j<length cs. position_weight j) * 100
      \<le> (\<Sum>j<length cs. final_score (cs' ! j) * position_weight j)
          / (\<Sum>j<length cs. position_weight j) * 100"
    using num den by (simp add: divide_right_mono)
  then have "py_int ((\<Sum>j<length cs. final_score (cs ! j) * position_weight j)
          / (\<Sum>j<length cs. position_weight j) * 100)
      \<le> py_int ((\<Sum>j<length cs. final_score (cs' ! j) * position_weight j)
          / (\<Sum>j<length cs. position_weight j) * 100)"
    by (rule py_int_mono)
  then show ?thesis
    unfolding calculate_page_score_unfold [OF False] calculate_page_score_unfold [OF ne'] S K
    unfolding len [symmetric]
    by simp
qed

text \<open>
  Claim C4. For every list of claim results and every index \<open>i\<close> into it, raising the
  confidence of claim \<open>i\<close> with everything else fixed never lowers the page score, and
  replacing its verdict by one of greater or equal verdict weight, at the same confidence
  (which a \<open>ClaimResult\<close> keeps non-negative) and the same sources, never lowers it either.
\<close>

theorem page_score_monotone:
  assumes "i < length claims"
  shows "(confidence (claims ! i) \<le> c' \<longrightarrow>
            calculate_page_score claims
              \<le> calculate_page_score (claims[i := (claims ! i)\<lparr>confidence := c'\<rparr>]))
       \<and> (0 \<le> confidence (claims ! i) \<and> verdict_score (verdict (claims ! i)) \<le> verdict_score v' \<longrightarrow>
            calculate_page_score claims
              \<le> calculate_page_score (claims[i := (claims ! i)\<lparr>verdict := v'\<rparr>]))"
proof (intro conjI impI)
  assume le: "confidence (claims ! i) \<le> c'"
  show "calculate_page_score claims
      \<le> calculate_page_score (claims[i := (claims ! i)\<lparr>confidence := c'\<rparr>])"
  proof (rule calculate_page_score_mono)
    show "length claims = length (claims[i := (claims ! i)\<lparr>confidence := c'\<rparr>])" by simp
  next
    fix j assume "j < length claims"
    then show "sources (claims ! j) = sources (claims[i := (claims ! i)\<lparr>confidence := c'\<rparr>] ! j)"
      by (cases "j = i") simp_all
  next
    fix j assume j: "j < length claims"
    show "final_score (claims ! j)
        \<le> final_score (claims[i := (claims ! i)\<lparr>confidence := c'\<rparr>] ! j)"
    proof (cases "j = i")
      case True
      have "final_score ((claims ! i)\<lparr>confidence := confidence (claims ! i)\<rparr>)
          \<le> final_score ((claims ! i)\<lparr>confidence := c'\<rparr>)"
        by (rule final_score_mono_confidence [OF le])
      then show ?thesis using True j by simp
    next
      case False
      then show ?thesis using j by simp
    qed
  qed
next
  assume "0 \<le> confidence (claims ! i) \<and> verdict_score (verdict (claims ! i)) \<le> verdict_score v'"
  then have c0: "0 \<le> confidence (claims ! i)"
    and le: "verdict_score (verdict (claims ! i)) \<le> verdict_score v'" by simp_all
  show "calculate_page_score claims
      \<le> calculate_page_score (claims[i := (claims ! i)\<lparr>verdict := v'\<rparr>])"
  proof (rule calculate_page_score_mono)
    show "length claims = length (claims[i := (claims ! i)\<lparr>verdict := v'\<rparr>])" by simp
  next
    fix j assume "j < length claims"
    then show "sources (claims ! j) = sources (claims[i := (claims ! i)\<lparr>verdict := v'\<rparr>] ! j)"
      by (cases "j = i") simp_all
  next
    fix j assume j: "j < length claims"
    show "final_score (claims ! j)
        \<le> final_score (claims[i := (claims ! i)\<lparr>verdict := v'\<rparr>] ! j)"
    proof (cases "j = i")
      case True
      have "final_score ((claims ! i)\<lparr>verdict := verdict (claims ! i)\<rparr>)
          \<le> final_score ((claims ! i)\<lparr>verdict := v'\<rparr>)"
        by (rule final_score_mono_verdict [OF c0 le])
      then show ?thesis using True j by simp
    next
      case False
      then show ?thesis using j by simp
    qed
  qed
qed



theorem page_score_monotone_witness:
  "0 < length [example_claim_contradicted]
   \<and> confidence ([example_claim_contradicted] ! 0) \<le> 1
   \<and> calculate_page_score [example_claim_contradicted]
       \<le> calculate_page_score
           ([example_claim_contradicted]
              [0 := ([example_claim_contradicted] ! 0)\<lparr>confidence := 1\<rparr>])
   \<and> 0 \<le> confidence ([example_claim_contradicted] ! 0)
   \<and> verdict_score (verdict ([example_claim_contradicted] ! 0))
       \<le> verdict_score STRONGLY_SUPPORTED
   \<and> calculate_page_score [example_claim_contradicted]
       \<le> calculate_page_score
           ([example_claim_contradicted]
              [0 := ([example_claim_contradicted] ! 0)\<lparr>verdict := STRONGLY_SUPPORTED\<rparr>])"
  using page_score_monotone [of 0 "[example_claim_contradicted]" 1 STRONGLY_SUPPORTED]
  by (simp add: example_claim_contradicted_def example_claim_def verdict_score_eq
      spec_verdict_weight_def)


section \<open>Properties of the result formatter\<close>










section \<open>Properties of the evidence ranker\<close>

lemma recency_value:
  assumes "p \<noteq> []" "age_days_of p = Some a" "0 \<le> a"
  shows "calculate_recency_score age_days_of (Some p) ts =
     max 0.1 (min 1 (0.5 powr (real_of_int a /
        (if ts = ''high'' then 90 else if ts = ''medium'' then 365 else 1000))))"
proof -
  have "\<not> real_of_int a / 90 \<le> - 1024" "\<not> real_of_int a / 365 \<le> - 1024"
    "\<not> real_of_int a / 1000 \<le> - 1024"
    using assms(3) by simp_all
  then show ?thesis
    using assms(1,2) by (simp add: calculate_recency_score_def Let_def)
qed

lemma half_powr_antimono:
  assumes "x \<le> y"
  shows "(0.5::real) powr y \<le> 0.5 powr x"
  using assms by (intro powr_mono') simp_all

lemma clamp_mono:
  fixes u v :: real
  assumes "u \<le> v"
  shows "max 0.1 (min 1 u) \<le> max 0.1 (min 1 v)"
  using assms by (simp add: max_def min_def)

text \<open>
  Claim C3. For a publication date that parses, with a non-negative age in days, the recency
  score is \<open>0.5\<close> to the power \<open>age_days / decay_rate\<close> clamped to the interval from 0.1 to
  1, with decay rate 90 for high, 365 for medium and 1000 for low time sensitivity. For a
  fixed time sensitivity the score of the older of two dates is not above the score of the
  younger, and at one age the score for high is at most that for medium, which is at most
  that for low.
\<close>

theorem recency_score_decay:
  assumes "p \<noteq> []" "age_days_of p = Some a" "0 \<le> a"
    and "q \<noteq> []" "age_days_of q = Some b" "a \<le> b"
  shows "calculate_recency_score age_days_of (Some p) ''high''
           = max 0.1 (min 1.0 (0.5 powr (real_of_int a / 90)))
     \<and> calculate_recency_score age_days_of (Some p) ''medium''
           = max 0.1 (min 1.0 (0.5 powr (real_of_int a / 365)))
     \<and> calculate_recency_score age_days_of (Some p) ''low''
           = max 0.1 (min 1.0 (0.5 powr (real_of_int a / 1000)))
     \<and> calculate_recency_score age_days_of (Some q) ts
           \<le> calculate_recency_score age_days_of (Some p) ts
     \<and> calculate_recency_score age_days_of (Some p) ''high''
           \<le> calculate_recency_score age_days_of (Some p) ''medium''
     \<and> calculate_recency_score age_days_of (Some p) ''medium''
           \<le> calculate_recency_score age_days_of (Some p) ''low''"
proof -
  have b0: "0 \<le> b" using assms by simp
  have vh: "calculate_recency_score age_days_of (Some p) ''high''
           = max 0.1 (min 1.0 (0.5 powr (real_of_int a / 90)))"
    and vm: "calculate_recency_score age_days_of (Some p) ''medium''
           = max 0.1 (min 1.0 (0.5 powr (real_of_int a / 365)))"
    and vl: "calculate_recency_score age_days_of (Some p) ''low''
           = max 0.1 (min 1.0 (0.5 powr (real_of_int a / 1000)))"
    using recency_value [of p age_days_of a, OF assms(1-3)] by simp_all
  have mono: "calculate_recency_score age_days_of (Some q) ts
           \<le> calculate_recency_score age_days_of (Some p) ts"
  proof -
    let ?d = "if ts = ''high'' then 90 else if ts = ''medium'' then 365 else (1000::real)"
    have "real_of_int a / ?d \<le> real_of_int b / ?d"
      using assms(6) by (simp add: divide_right_mono)
    then have "(0.5::real) powr (real_of_int b / ?d) \<le> 0.5 powr (real_of_int a / ?d)"
      by (rule half_powr_antimono)
    then have "max 0.1 (min 1 ((0.5::real) powr (real_of_int b / ?d)))
        \<le> max 0.1 (min 1 (0.5 powr (real_of_int a / ?d)))"
      by (rule clamp_mono)
    then show ?thesis
      unfolding recency_value [of p age_days_of a, OF assms(1-3)]
        recency_value [of q age_days_of b, OF assms(4,5) b0] .
  qed
  have "real_of_int a / 365 \<le> real_of_int a / 90" "real_of_int a / 1000 \<le> real_of_int a / 365"
    using assms(3) by (simp_all add: frac_le)
  then have "(0.5::real) powr (real_of_int a / 90) \<le> 0.5 powr (real_of_int a / 365)"
    "(0.5::real) powr (real_of_int a / 365) \<le> 0.5 powr (real_of_int a / 1000)"
    by (simp_all only: half_powr_antimono)
  then have hm: "calculate_recency_score age_days_of (Some p) ''high''
           \<le> calculate_recency_score age_days_of (Some p) ''medium''"
    and ml: "calculate_recency_score age_days_of (Some p) ''medium''
           \<le> calculate_recency_score age_days_of (Some p) ''low''"
    unfolding vh vm vl using clamp_mono by simp_all
  show ?thesis using vh vm vl mono hm ml by blast
qed

theorem recency_score_decay_witness:
  "''2024-01-15'' \<noteq> [] \<and> example_age_days_of ''2024-01-15'' = Some 90 \<and> (0::int) \<le> 90
   \<and> ''2023-01-15'' \<noteq> [] \<and> example_age_days_of ''2023-01-15'' = Some 455 \<and> (90::int) \<le> 455
   \<and> calculate_recency_score example_age_days_of (Some ''2024-01-15'') ''high'' = 1 / 2
   \<and> calculate_recency_score example_age_days_of (Some ''2023-01-15'') ''high''
        \<le> calculate_recency_score example_age_days_of (Some ''2024-01-15'') ''high''
   \<and> calculate_recency_score example_age_days_of (Some ''2024-01-15'') ''high''
        \<le> calculate_recency_score example_age_days_of (Some ''2024-01-15'') ''medium''
   \<and> calculate_recency_score example_age_days_of (Some ''2024-01-15'') ''medium''
        \<le> calculate_recency_score example_age_days_of (Some ''2024-01-15'') ''low''"
proof -
  have h: "''2024-01-15'' \<noteq> []" "example_age_days_of ''2024-01-15'' = Some 90" "(0::int) \<le> 90"
    "''2023-01-15'' \<noteq> []" "example_age_days_of ''2023-01-15'' = Some 455" "(90::int) \<le> 455"
    by (simp_all add: example_age_days_of_def)
  note r = recency_score_decay
    [of "''2024-01-15''" example_age_days_of 90 "''2023-01-15''" 455 "''high''", OF h]
  have v: "calculate_recency_score example_age_days_of (Some ''2024-01-15'') ''high'' = 1 / 2"
    using conjunct1 [OF r] by simp
  show ?thesis
    using h v r by blast
qed

lemma clamp_bounds:
  fixes u :: real
  shows "1 / 10 \<le> max (1 / 10) (min 1 u) \<and> max (1 / 10) (min 1 u) \<le> 1"
  by simp

lemma recency_cases:
  "calculate_recency_score age_days_of published ts = 1 / 2
   \<or> (\<exists>u. calculate_recency_score age_days_of published ts = max (1 / 10) (min 1 u))"
proof (cases published)
  case None
  then show ?thesis by (simp add: calculate_recency_score_def)
next
  case (Some p)
  show ?thesis
  proof (cases "p = [] \<or> age_days_of p = None")
    case True
    then show ?thesis using Some by (auto simp: calculate_recency_score_def)
  next
    case False
    then obtain a where a: "p \<noteq> []" "age_days_of p = Some a" by auto
    let ?d = "if ts = ''high'' then 90 else if ts = ''medium'' then 365 else (1000::real)"
    show ?thesis
    proof (cases "real_of_int a / ?d \<le> - 1024")
      case True
      then have "calculate_recency_score age_days_of published ts = 1 / 2"
        unfolding calculate_recency_score_def Let_def using Some a by simp
      then show ?thesis ..
    next
      case False
      then have "calculate_recency_score age_days_of published ts
          = max (1 / 10) (min 1 (0.5 powr (real_of_int a / ?d)))"
        unfolding calculate_recency_score_def Let_def using Some a by simp
      then show ?thesis by blast
    qed
  qed
qed

lemma recency_bounds:
  "1 / 10 \<le> calculate_recency_score age_days_of published ts
   \<and> calculate_recency_score age_days_of published ts \<le> 1"
  using recency_cases [of age_days_of published ts] clamp_bounds by (auto simp del: max.bounded_iff min.bounded_iff)

lemma relevance_bounds:
  "0 \<le> get_relevance_score completion py_float claim item
   \<and> get_relevance_score completion py_float claim item \<le> 1"
  by (simp add: get_relevance_score_def split: option.split sum.split)

lemma score_evidence_props:
  assumes "score_evidence completion py_float age_days_of claim item = (score, item')"
  shows "scored_for age_days_of claim (item'\<lparr>combined_score := Some score\<rparr>)
       \<and> url item' = url item \<and> domain_reputation item' = domain_reputation item"
  using assms relevance_bounds [of completion py_float claim item]
  by (auto simp: score_evidence_def scored_for_def Let_def)

lemma score_items_length [simp]:
  "length (score_items llm py_float age_days_of claim i items) = length items"
  by (induction items arbitrary: i) (auto split: prod.splits)

lemma score_items_urls:
  "map url (score_items llm py_float age_days_of claim i items) = map url items"
proof (induction items arbitrary: i)
  case Nil
  show ?case by simp
next
  case (Cons item items)
  obtain score item' where s: "score_evidence (llm i) py_float age_days_of claim item = (score, item')"
    by (cases "score_evidence (llm i) py_float age_days_of claim item")
  show ?case using Cons.IH score_evidence_props [OF s] s by simp
qed

lemma score_items_scored:
  assumes "e \<in> set (score_items llm py_float age_days_of claim i items)"
  shows "scored_for age_days_of claim e
       \<and> (\<exists>e0\<in>set items. url e = url e0 \<and> domain_reputation e = domain_reputation e0)"
  using assms
proof (induction items arbitrary: i)
  case Nil
  then show ?case by simp
next
  case (Cons item items)
  obtain score item' where s: "score_evidence (llm i) py_float age_days_of claim item = (score, item')"
    by (cases "score_evidence (llm i) py_float age_days_of claim item")
  from Cons.prems s have "e = item'\<lparr>combined_score := Some score\<rparr>
      \<or> e \<in> set (score_items llm py_float age_days_of claim (Suc i) items)"
    by simp
  then show ?case
  proof
    assume "e = item'\<lparr>combined_score := Some score\<rparr>"
    then show ?thesis using score_evidence_props [OF s] by simp
  next
    assume "e \<in> set (score_items llm py_float age_days_of claim (Suc i) items)"
    from Cons.IH [OF this] show ?thesis by auto
  qed
qed

lemma scored_key_bounds:
  assumes "scored_for age_days_of claim e" "reputation_ok e"
  shows "0 \<le> combined_key e \<and> combined_key e \<le> 1"
proof -
  let ?r = "calculate_recency_score age_days_of (published_at e)
                 (py_get (time_sensitivity claim) ''low'')"
  have r: "0 \<le> ?r" "?r \<le> 1"
    using recency_bounds [of age_days_of "published_at e" "py_get (time_sensitivity claim) ''low''"]
    by simp_all
  have k: "combined_key e = relevance_score e * 0.5 + py_get (domain_reputation e) 0.5 * 0.3 + ?r * 0.2"
    using assms(1) by (simp add: scored_for_def combined_key_def)
  show ?thesis
    unfolding k using r assms by (simp add: scored_for_def reputation_ok_def)
qed

lemma sort_reverse_sorted:
  "sorted_wrt (\<lambda>a b. combined_key b \<le> combined_key a) (sort_reverse xs)"
proof -
  have "sorted (map (\<lambda>x. - combined_key x) (sort_reverse xs))"
    unfolding sort_reverse_def by (rule sorted_sort_key)
  then show ?thesis by (simp add: sorted_map)
qed

lemma rank_claim_props:
  "length (rank_claim k llm py_float age_days_of claim items) = min k (length items)
   \<and> sorted_wrt (\<lambda>a b. combined_key b \<le> combined_key a)
        (rank_claim k llm py_float age_days_of claim items)
   \<and> set (rank_claim k llm py_float age_days_of claim items)
        \<subseteq> set (score_items llm py_float age_days_of claim 0 items)"
proof -
  have "set (take k (sort_reverse (score_items llm py_float age_days_of claim 0 items)))
      \<subseteq> set (sort_reverse (score_items llm py_float age_days_of claim 0 items))"
    by (rule set_take_subset)
  then show ?thesis
    by (simp add: rank_claim_def sort_reverse_sorted min.commute) (simp add: sort_reverse_def)
qed

lemma set_update_subset: "set (AList.update k v al) \<subseteq> insert (k, v) (set al)"
  by (induction al) auto

lemma rank_loop_entries:
  assumes "(cid, ranked) \<in> set (rank_loop k llm py_float age_days_of by_id evidence acc)"
  shows "(cid, ranked) \<in> set acc
     \<or> (\<exists>claim items. by_id cid = Some claim \<and> (cid, items) \<in> set evidence
           \<and> ranked = rank_claim k (llm cid) py_float age_days_of claim items)"
  using assms
proof (induction evidence arbitrary: acc)
  case Nil
  then show ?case by simp
next
  case (Cons entry evidence)
  obtain c items where entry: "entry = (c, items)" by (cases entry)
  show ?case
  proof (cases "by_id c")
    case None
    with Cons.prems entry
    have "(cid, ranked) \<in> set (rank_loop k llm py_float age_days_of by_id evidence acc)" by simp
    from Cons.IH [OF this] show ?thesis by auto
  next
    case (Some claim)
    with Cons.prems entry
    have "(cid, ranked) \<in> set (rank_loop k llm py_float age_days_of by_id evidence
        (AList.update c (rank_claim k (llm c) py_float age_days_of claim items) acc))" by simp
    from Cons.IH [OF this] show ?thesis
    proof
      assume "(cid, ranked) \<in> set (AList.update c (rank_claim k (llm c) py_float age_days_of claim items) acc)"
      then have "(cid, ranked) = (c, rank_claim k (llm c) py_float age_days_of claim items)
          \<or> (cid, ranked) \<in> set acc"
        using set_update_subset by fastforce
      then show ?thesis using Some entry by auto
    next
      assume "\<exists>claim items. by_id cid = Some claim \<and> (cid, items) \<in> set evidence
           \<and> ranked = rank_claim k (llm cid) py_float age_days_of claim items"
      then show ?thesis by auto
    qed
  qed
qed

text \<open>
  Claim C2. When every domain reputation handed to the ranker is in the unit interval, each
  list that \<open>rank_evidence\<close> returns for a claim id belongs to a claim of that id and to an
  evidence list stored under it; it has the smaller of the maximum and the evidence list's
  length as its length, it is in descending order of the combined score, and each of its
  items is an input item of the same URL that carries the combined score
  \<open>relevance * 0.5 + domain_reputation * 0.3 + recency * 0.2\<close>, with the relevance clamped to
  the unit interval (or the neutral 0.5) and a combined score in the unit interval.
\<close>

theorem rank_evidence_scored_sorted_truncated:
  assumes "\<forall>entry\<in>set evidence. \<forall>e\<in>set (snd entry). reputation_ok e"
    and "(cid, ranked) \<in> set (rank_evidence k llm py_float age_days_of claims evidence)"
  shows "\<exists>claim items.
      claims_by_id claims cid = Some claim \<and> (cid, items) \<in> set evidence
      \<and> length ranked = min k (length items) \<and> length ranked \<le> k
      \<and> sorted_wrt (\<lambda>a b. combined_key b \<le> combined_key a) ranked
      \<and> (\<forall>e\<in>set ranked.
            scored_for age_days_of claim e
            \<and> 0 \<le> combined_key e \<and> combined_key e \<le> 1
            \<and> (\<exists>e0\<in>set items. url e = url e0))"
proof -
  from assms(2) have "(cid, ranked) \<in> set (rank_loop k llm py_float age_days_of
      (claims_by_id claims) evidence [])"
    by (simp add: rank_evidence_def split: if_splits)
  from rank_loop_entries [OF this] obtain claim items where
    claim: "claims_by_id claims cid = Some claim" and items: "(cid, items) \<in> set evidence"
    and ranked: "ranked = rank_claim k (llm cid) py_float age_days_of claim items"
    by auto
  note p = rank_claim_props [of k "llm cid" py_float age_days_of claim items]
  have each: "scored_for age_days_of claim e \<and> 0 \<le> combined_key e \<and> combined_key e \<le> 1
            \<and> (\<exists>e0\<in>set items. url e = url e0)" if "e \<in> set ranked" for e
  proof -
    from that ranked p have "e \<in> set (score_items (llm cid) py_float age_days_of claim 0 items)"
      by auto
    from score_items_scored [OF this] obtain e0 where
      sc: "scored_for age_days_of claim e" and e0: "e0 \<in> set items" "url e = url e0"
      "domain_reputation e = domain_reputation e0" by auto
    have "reputation_ok e0" using assms(1) items e0(1) by fastforce
    then have "reputation_ok e" using e0(3) by (simp add: reputation_ok_def)
    from scored_key_bounds [OF sc this] show ?thesis using sc e0 by auto
  qed
  show ?thesis
    using claim items ranked p each by (intro exI [of _ claim] exI [of _ items]) simp
qed

lemma example_rank_evidence:
  "rank_evidence 2 example_relevance_llm example_py_float (\<lambda>s. None) [example_Claim]
     [(''clm_1'', [example_titled ''A'', example_titled ''B'', example_titled ''C''])]
   = [(''clm_1'', example_ranked)]"
  by (simp add: rank_evidence_def claims_by_id_def rank_claim_def sort_reverse_def
      score_evidence_def get_relevance_score_def calculate_recency_score_def combined_key_def Let_def
      py_get_def example_Claim_def example_titled_def example_item_def
      example_relevance_llm_def example_py_float_def example_ranked_def)

theorem rank_evidence_scored_sorted_truncated_witness:
  "reputation_ok (example_titled ''A'') \<and> reputation_ok (example_titled ''B'')
   \<and> reputation_ok (example_titled ''C'')
   \<and> (''clm_1'', example_ranked)
       \<in> set (rank_evidence 2 example_relevance_llm example_py_float (\<lambda>s. None) [example_Claim]
               [(''clm_1'', [example_titled ''A'', example_titled ''B'', example_titled ''C''])])
   \<and> length example_ranked \<le> 2
   \<and> sorted_wrt (\<lambda>a b. combined_key b \<le> combined_key a) example_ranked
   \<and> map combined_key example_ranked = [0.7, 0.5]"
proof -
  have rep: "reputation_ok (example_titled ''A'')" "reputation_ok (example_titled ''B'')"
    "reputation_ok (example_titled ''C'')"
    by (simp_all add: reputation_ok_def example_titled_def example_item_def py_get_def)
  then have h1: "\<forall>entry\<in>set [(''clm_1'', [example_titled ''A'', example_titled ''B'', example_titled ''C''])].
      \<forall>e\<in>set (snd entry). reputation_ok e"
    by simp
  have h2: "(''clm_1'', example_ranked)
       \<in> set (rank_evidence 2 example_relevance_llm example_py_float (\<lambda>s. None) [example_Claim]
               [(''clm_1'', [example_titled ''A'', example_titled ''B'', example_titled ''C''])])"
    by (simp add: example_rank_evidence)
  have keys: "map combined_key example_ranked = [0.7, 0.5]"
    by (simp add: example_ranked_def combined_key_def)
  from rank_evidence_scored_sorted_truncated [OF h1 h2]
  have "length example_ranked \<le> 2
      \<and> sorted_wrt (\<lambda>a b. combined_key b \<le> combined_key a) example_ranked"
    by blast
  then show ?thesis using rep h2 keys by blast
qed

section \<open>Properties of the evidence retriever\<close>

lemma first_seen_urls: "url ` set (first_seen xs) = url ` set xs"
  by (induction xs rule: first_seen.induct) auto

lemma first_seen_distinct: "distinct (map url (first_seen xs))"
proof (induction xs rule: first_seen.induct)
  case 1
  show ?case by simp
next
  case (2 x xs)
  have "url ` set (first_seen (filter (\<lambda>y. url y \<noteq> url x) xs))
      = url ` set (filter (\<lambda>y. url y \<noteq> url x) xs)"
    by (rule first_seen_urls)
  then have "url x \<notin> url ` set (first_seen (filter (\<lambda>y. url y \<noteq> url x) xs))"
    by auto
  then show ?case using "2.IH" by simp
qed

lemma first_seen_append:
  "first_seen (xs @ ys) = first_seen xs @ first_seen (filter (\<lambda>y. url y \<notin> url ` set xs) ys)"
proof (induction xs arbitrary: ys rule: first_seen.induct)
  case 1
  show ?case by simp
next
  case (2 x xs)
  let ?xs' = "filter (\<lambda>y. url y \<noteq> url x) xs"
  let ?ys' = "filter (\<lambda>y. url y \<noteq> url x) ys"
  have "filter (\<lambda>y. url y \<notin> url ` set ?xs') ?ys'
      = filter (\<lambda>y. url y \<notin> url ` set (x # xs)) ys"
    unfolding filter_filter by (rule filter_cong) auto
  then show ?case using "2.IH" [of ?ys'] by simp
qed

lemma add_results_first_seen:
  "fst (add_results found (cur, url ` set cur))
     = cur @ first_seen (filter (\<lambda>y. url y \<notin> url ` set cur) found)"
proof (induction found arbitrary: cur)
  case Nil
  show ?case by simp
next
  case (Cons item found)
  show ?case
  proof (cases "url item \<in> url ` set cur")
    case True
    then show ?thesis using Cons.IH [of cur] by simp
  next
    case False
    have ins: "insert (url item) (url ` set cur) = url ` set (cur @ [item])" by simp
    have "filter (\<lambda>y. url y \<notin> url ` set (cur @ [item])) found
        = filter (\<lambda>y. url y \<noteq> url item) (filter (\<lambda>y. url y \<notin> url ` set cur) found)"
      unfolding filter_filter by (rule filter_cong) auto
    then show ?thesis
      using False Cons.IH [of "cur @ [item]"] unfolding ins [symmetric] by simp
  qed
qed

lemma stream_of_unseen:
  assumes "cid \<notin> fst ` set pairs"
  shows "stream_of pairs cid = []"
  using assms by (induction pairs) (auto simp: stream_of_def split: sum.splits)

lemma stream_of_snoc:
  "stream_of (pairs @ [(c, r)]) cid =
     stream_of pairs cid @ (case r of Inr found \<Rightarrow> if c = cid then found else [] | Inl e \<Rightarrow> [])"
  by (simp add: stream_of_def)

lemma aggregate_invariant:
  assumes "distinct (map fst evidence)"
    and "\<And>cid. map_of evidence cid =
           (if cid \<in> fst ` set seen then Some (first_seen (stream_of seen cid)) else None)"
  shows "distinct (map fst (aggregate pairs evidence))
       \<and> (\<forall>cid. map_of (aggregate pairs evidence) cid =
           (if cid \<in> fst ` set (seen @ pairs)
            then Some (first_seen (stream_of (seen @ pairs) cid)) else None))"
  using assms
proof (induction pairs arbitrary: evidence seen)
  case Nil
  then show ?case by simp
next
  case (Cons pair pairs)
  obtain c r where pair: "pair = (c, r)" by (cases pair)
  define evidence1 where
    "evidence1 = (if c \<notin> fst ` set evidence then AList.update c [] evidence else evidence)"
  have keys: "c \<in> fst ` set evidence \<longleftrightarrow> c \<in> fst ` set seen"
    using Cons.prems(2) [of c] by (metis map_of_eq_None_iff option.distinct(1))
  have d1: "distinct (map fst evidence1)"
    using Cons.prems(1) by (simp add: evidence1_def distinct_update)
  have cur: "map_of evidence1 c = Some (first_seen (stream_of seen c))"
  proof (cases "c \<in> fst ` set seen")
    case True
    then show ?thesis using keys Cons.prems(2) [of c] by (simp add: evidence1_def)
  next
    case False
    then show ?thesis
      using keys by (simp add: evidence1_def update_conv' stream_of_unseen)
  qed
  have other: "map_of evidence1 cid = map_of evidence cid" if "cid \<noteq> c" for cid
    using that by (simp add: evidence1_def update_conv')
  define evidence2 where
    "evidence2 = (case r of Inl e \<Rightarrow> evidence1
       | Inr found \<Rightarrow>
           AList.update c
             (fst (add_results found
                (first_seen (stream_of seen c), url ` set (first_seen (stream_of seen c)))))
             evidence1)"
  have step: "aggregate (pair # pairs) evidence = aggregate pairs evidence2"
    unfolding pair evidence2_def
    using cur by (cases r) (simp_all add: evidence1_def [symmetric] Let_def)
  have d2: "distinct (map fst evidence2)"
    using d1 by (cases r) (simp_all add: evidence2_def distinct_update)
  have m2: "map_of evidence2 cid =
      (if cid \<in> fst ` set (seen @ [(c, r)])
       then Some (first_seen (stream_of (seen @ [(c, r)]) cid)) else None)" for cid
  proof (cases "cid = c")
    case True
    show ?thesis
    proof (cases r)
      case (Inl e)
      then show ?thesis using True cur by (simp add: evidence2_def stream_of_snoc)
    next
      case (Inr found)
      have "fst (add_results found
                (first_seen (stream_of seen c), url ` set (first_seen (stream_of seen c))))
          = first_seen (stream_of seen c)
              @ first_seen (filter (\<lambda>y. url y \<notin> url ` set (first_seen (stream_of seen c))) found)"
        by (rule add_results_first_seen)
      also have "\<dots> = first_seen (stream_of seen c @ found)"
        by (simp add: first_seen_append first_seen_urls)
      finally show ?thesis
        using True Inr by (simp add: evidence2_def update_conv' stream_of_snoc)
    qed
  next
    case False
    have "map_of evidence2 cid = map_of evidence cid"
      using False other [OF False] by (cases r) (simp_all add: evidence2_def update_conv')
    moreover have "stream_of (seen @ [(c, r)]) cid = stream_of seen cid"
      using False by (cases r) (simp_all add: stream_of_snoc)
    ultimately show ?thesis using False Cons.prems(2) [of cid] by simp
  qed
  have "distinct (map fst (aggregate pairs evidence2))
       \<and> (\<forall>cid. map_of (aggregate pairs evidence2) cid =
           (if cid \<in> fst ` set ((seen @ [(c, r)]) @ pairs)
            then Some (first_seen (stream_of ((seen @ [(c, r)]) @ pairs) cid)) else None))"
    by (rule Cons.IH [OF d2 m2])
  then show ?case unfolding step by (simp add: pair)
qed

lemma fetch_evidence_map_of:
  "distinct (map fst (fetch_evidence search queries))
   \<and> (\<forall>cid. map_of (fetch_evidence search queries) cid =
         (if cid \<in> fst ` set (gather_results search queries)
          then Some (first_seen (results_for search queries cid)) else None))"
proof (cases "queries = []")
  case True
  then show ?thesis
    by (simp add: fetch_evidence_def gather_results_def claim_query_tasks_def)
next
  case False
  have "distinct (map fst (aggregate (gather_results search queries) []))
       \<and> (\<forall>cid. map_of (aggregate (gather_results search queries) []) cid =
           (if cid \<in> fst ` set ([] @ gather_results search queries)
            then Some (first_seen (stream_of ([] @ gather_results search queries) cid))
            else None))"
    by (rule aggregate_invariant) simp_all
  then show ?thesis
    using False by (simp add: fetch_evidence_def results_for_def stream_of_def)
qed

text \<open>
  Claim C7. For every query map and every behaviour of the search provider, a list that
  \<open>fetch_evidence\<close> returns for a claim holds no two items of the same URL, and it keeps of
  each URL the item that came first among the results of that claim's successful searches.
\<close>

theorem fetch_evidence_no_duplicate_urls:
  assumes "(cid, found) \<in> set (fetch_evidence search queries)"
  shows "distinct (map url found) \<and> found = first_seen (results_for search queries cid)"
proof -
  have "distinct (map fst (fetch_evidence search queries))"
    using fetch_evidence_map_of [of search queries] by blast
  then have "map_of (fetch_evidence search queries) cid = Some found"
    using assms by (rule map_of_is_SomeI)
  then have "found = first_seen (results_for search queries cid)"
    using fetch_evidence_map_of [of search queries] by (simp split: if_splits)
  then show ?thesis by (simp add: first_seen_distinct)
qed

lemma example_gather:
  "gather_results example_search [(''clm_1'', [''q1'', ''q2'', ''q3''])] =
     [(''clm_1'', example_search 0 ''q1''), (''clm_1'', example_search 1 ''q2''),
      (''clm_1'', example_search 2 ''q3'')]"
  by (simp add: gather_results_def claim_query_tasks_def numeral_2_eq_2)

lemma example_search_simps:
  "example_search 0 q = Inr [example_found ''https://a.org/1'' ''first'',
                              example_found ''https://a.org/2'' ''first'']"
  "example_search 1 q = Inl (Exception ''timeout'')"
  "example_search 2 q = Inr [example_found ''https://a.org/2'' ''second'',
                              example_found ''https://a.org/3'' ''second'']"
  by (simp_all add: example_search_def)

lemma url_example_found: "url (example_found a t) = a"
  by (simp add: example_found_def example_item_def)

lemma aggregate_Inl_seen:
  assumes "c \<in> fst ` set evidence"
  shows "aggregate ((c, Inl e) # rest) evidence = aggregate rest evidence"
  using assms by simp

lemma aggregate_Inr_new:
  assumes "c \<notin> fst ` set evidence"
  shows "aggregate ((c, Inr found) # rest) evidence
     = aggregate rest
         (AList.update c (fst (add_results found ([], {}))) (AList.update c [] evidence))"
  using assms by (simp add: Let_def update_conv')

lemma aggregate_Inr_seen:
  assumes "map_of evidence c = Some cur"
  shows "aggregate ((c, Inr found) # rest) evidence
     = aggregate rest (AList.update c (fst (add_results found (cur, url ` set cur))) evidence)"
proof -
  have "c \<in> fst ` set evidence"
    using assms by (metis map_of_eq_None_iff option.distinct(1))
  then show ?thesis using assms by (simp add: Let_def)
qed

lemma example_fetch_evidence:
  "fetch_evidence example_search [(''clm_1'', [''q1'', ''q2'', ''q3''])]
     = [(''clm_1'', example_fetched)]"
proof -
  let ?first = "[example_found ''https://a.org/1'' ''first'',
                 example_found ''https://a.org/2'' ''first'']"
  let ?third = "[example_found ''https://a.org/2'' ''second'',
                 example_found ''https://a.org/3'' ''second'']"
  have "aggregate [(''clm_1'', Inr ?first), (''clm_1'', Inl (Exception ''timeout'')),
                   (''clm_1'', Inr ?third)] []
      = aggregate [(''clm_1'', Inl (Exception ''timeout'')), (''clm_1'', Inr ?third)]
          [(''clm_1'', ?first)]"
    by (subst aggregate_Inr_new) (simp_all add: url_example_found)
  also have "\<dots> = aggregate [(''clm_1'', Inr ?third)] [(''clm_1'', ?first)]"
    by (subst aggregate_Inl_seen) simp_all
  also have "\<dots> = aggregate [] [(''clm_1'', example_fetched)]"
    by (subst aggregate_Inr_seen [where cur = ?first])
      (simp_all add: url_example_found example_fetched_def)
  also have "\<dots> = [(''clm_1'', example_fetched)]"
    by (simp only: aggregate.simps(1))
  finally have agg:
    "aggregate [(''clm_1'', Inr ?first), (''clm_1'', Inl (Exception ''timeout'')),
                (''clm_1'', Inr ?third)] [] = [(''clm_1'', example_fetched)]" .
  show ?thesis
    unfolding fetch_evidence_def example_gather example_search_simps
    by (simp only: agg list.distinct if_False)
qed

theorem fetch_evidence_no_duplicate_urls_witness:
  "(''clm_1'', example_fetched)
     \<in> set (fetch_evidence example_search [(''clm_1'', [''q1'', ''q2'', ''q3''])])
   \<and> distinct (map url example_fetched)
   \<and> example_fetched
       = first_seen (results_for example_search [(''clm_1'', [''q1'', ''q2'', ''q3''])] ''clm_1'')
   \<and> map title example_fetched = [Some ''first'', Some ''first'', Some ''second'']"
proof -
  have h: "(''clm_1'', example_fetched)
     \<in> set (fetch_evidence example_search [(''clm_1'', [''q1'', ''q2'', ''q3''])])"
    by (simp add: example_fetch_evidence)
  have t: "map title example_fetched = [Some ''first'', Some ''first'', Some ''second'']"
    by (simp add: example_fetched_def example_found_def)
  show ?thesis
    using fetch_evidence_no_duplicate_urls [OF h] h t by blast
qed

section \<open>Properties of the query planner\<close>

lemma brackets_of_empty_array:
  "py_find CHR ''['' ''[]'' = 0 \<and> py_rfind CHR '']'' ''[]'' + 1 = 2
   \<and> py_slice ''[]'' 0 2 = ''[]''"
  by (simp add: py_find_def py_rfind_def py_slice_def)

text \<open>
  The two fallback paths: when the call raises, and when the answer holds no bracket pair,
  the claim gets its own text, cut to 100 characters, as its only query.
\<close>

lemma plan_queries_fallback_on_error:
  assumes "claim_text claim = Some t" "post 0 t (py_get (topic claim) vertical)
      (py_get (claim_type claim) ''general'') = Inl e"
  shows "plan_queries loads post [claim] vertical = Inr [(claim_id claim, [JStr (take 100 t)])]"
  using assms by (simp add: plan_queries_def plan_claim_def)

lemma plan_queries_fallback_no_brackets:
  assumes "claim_text claim = Some t" "post 0 t (py_get (topic claim) vertical)
      (py_get (claim_type claim) ''general'') = Inr content" "CHR ''['' \<notin> set content"
  shows "plan_queries loads post [claim] vertical = Inr [(claim_id claim, [JStr (take 100 t)])]"
  using assms by (simp add: plan_queries_def plan_claim_def py_find_def Let_def)

text \<open>
  Claim C8, at the answer \<open>[]\<close>. When the language model answers a claim with the empty JSON
  array, which the decoder reads as the empty list, \<open>plan_queries\<close> stores no query at all
  for that claim: the claim is given fewer than one query, and the fallback query is not
  used.
\<close>

theorem plan_queries_empty_array:
  assumes "loads ''[]'' = Inr []"
    and "claim_text claim = Some t"
  shows "plan_queries loads (\<lambda>i t tp ct. Inr ''[]'') [claim] vertical = Inr [(claim_id claim, [])]"
  using assms brackets_of_empty_array
  by (simp add: plan_queries_def plan_claim_def Let_def)

theorem plan_queries_empty_array_witness:
  "example_loads_array ''[]'' = Inr []
   \<and> claim_text example_Claim = Some ''Used by over 10,000 teams''
   \<and> plan_queries example_loads_array (\<lambda>i t tp ct. Inr ''[]'') [example_Claim] ''general''
       = Inr [(''clm_1'', [])]"
proof -
  have h1: "example_loads_array ''[]'' = Inr []" by (simp add: example_loads_array_def)
  have h2: "claim_text example_Claim = Some ''Used by over 10,000 teams''"
    by (simp add: example_Claim_def)
  have "claim_id example_Claim = ''clm_1''" by (simp add: example_Claim_def)
  then show ?thesis
    using plan_queries_empty_array
      [of example_loads_array example_Claim "''Used by over 10,000 teams''" "''general''",
       OF h1 h2] h1 h2
    by simp
qed

section \<open>Properties of the verifier\<close>

lemma verify_single_claim_confidence:
  assumes "verify_single_claim loads py_float chat model claim evidence = Inr v"
  shows "0 \<le> vd_confidence v \<and> vd_confidence v \<le> 1"
  using assms
  by (auto simp: verify_single_claim_def Let_def split: option.splits sum.splits if_splits)

lemma verify_loop_eq:
  "verify_loop loads py_float llm model evidence i claims verdicts =
     verdicts @ map (\<lambda>(j, claim). verdict_for loads py_float (llm j) model evidence claim)
                  (enumerate i claims)"
proof (induction claims arbitrary: i verdicts)
  case Nil
  show ?case by simp
next
  case (Cons claim claims)
  show ?case
    by (cases "verify_single_claim loads py_float (llm i) model claim
                 (py_get (map_of evidence (claim_id claim)) [])")
       (simp_all add: Cons.IH verdict_for_def Let_def)
qed

lemma verify_claims_eq:
  "verify_claims loads py_float llm model claims evidence =
     map (\<lambda>(j, claim). verdict_for loads py_float (llm j) model evidence claim)
       (enumerate 0 claims)"
  by (cases "claims = []") (simp_all add: verify_claims_def verify_loop_eq)

lemma verdict_for_props:
  "vd_claim_id (verdict_for loads py_float chat model evidence claim) = claim_id claim
   \<and> 0 \<le> vd_confidence (verdict_for loads py_float chat model evidence claim)
   \<and> vd_confidence (verdict_for loads py_float chat model evidence claim) \<le> 1"
proof (cases "verify_single_claim loads py_float chat model claim
                 (py_get (map_of evidence (claim_id claim)) [])")
  case (Inl e)
  then show ?thesis by (simp add: verdict_for_def fallback_verdict_def)
next
  case (Inr v)
  then show ?thesis
    using verify_single_claim_confidence [OF Inr]
    by (simp add: verdict_for_def with_claim_id_def)
qed

text \<open>
  Claim C9. For every claim list, evidence map and behaviour of the language model,
  \<open>verify_claims\<close> returns a list with one verdict per claim, in order and with the claim's
  id; every confidence is in the unit interval; and when the verification of the claim at
  position \<open>i\<close> fails for any reason, its verdict is \<open>not_verifiable\<close> with confidence 0, the
  reasoning \<open>Verification failed due to an error.\<close> and empty lists of supporting and
  contradicting sources. Failures are values of the model and \<open>verify_claims\<close> is a total
  function, so no failure of a single claim leaves it.
\<close>

theorem verify_claims_one_verdict_per_claim:
  "length (verify_claims loads py_float llm model claims evidence) = length claims
   \<and> map vd_claim_id (verify_claims loads py_float llm model claims evidence)
       = map claim_id claims
   \<and> (\<forall>v\<in>set (verify_claims loads py_float llm model claims evidence).
         0 \<le> vd_confidence v \<and> vd_confidence v \<le> 1)
   \<and> (\<forall>i<length claims. \<forall>e.
         verify_single_claim loads py_float (llm i) model (claims ! i)
           (py_get (map_of evidence (claim_id (claims ! i))) []) = Inl e
         \<longrightarrow> verify_claims loads py_float llm model claims evidence ! i
             = \<lparr> vd_verdict = ''not_verifiable'', vd_confidence = 0,
                 vd_reasoning = JStr ''Verification failed due to an error.'',
                 vd_supporting_sources = JArr [], vd_contradicting_sources = JArr [],
                 vd_model_used = model, vd_claim_id = claim_id (claims ! i) \<rparr>)"
proof (intro conjI allI impI ballI)
  show "length (verify_claims loads py_float llm model claims evidence) = length claims"
    by (simp add: verify_claims_eq)
next
  show "map vd_claim_id (verify_claims loads py_float llm model claims evidence)
       = map claim_id claims"
    by (rule nth_equalityI)
       (simp_all add: verify_claims_eq nth_enumerate_eq verdict_for_props)
next
  fix v assume "v \<in> set (verify_claims loads py_float llm model claims evidence)"
  then obtain j claim where
    "v = verdict_for loads py_float (llm j) model evidence claim"
    by (auto simp: verify_claims_eq)
  then show "0 \<le> vd_confidence v" "vd_confidence v \<le> 1"
    using verdict_for_props [of loads py_float "llm j" model evidence claim] by simp_all
next
  fix i e
  assume i: "i < length claims"
    and fail: "verify_single_claim loads py_float (llm i) model (claims ! i)
           (py_get (map_of evidence (claim_id (claims ! i))) []) = Inl e"
  have "verify_claims loads py_float llm model claims evidence ! i
      = verdict_for loads py_float (llm i) model evidence (claims ! i)"
    using i by (simp add: verify_claims_eq nth_enumerate_eq)
  then show "verify_claims loads py_float llm model claims evidence ! i
             = \<lparr> vd_verdict = ''not_verifiable'', vd_confidence = 0,
                 vd_reasoning = JStr ''Verification failed due to an error.'',
                 vd_supporting_sources = JArr [], vd_contradicting_sources = JArr [],
                 vd_model_used = model, vd_claim_id = claim_id (claims ! i) \<rparr>"
    using fail by (simp add: verdict_for_def fallback_verdict_def)
qed

lemma example_lower: "py_lower ''SUPPORTED'' = ''supported''"
  by code_simp

lemma example_single_ok:
  "verify_single_claim example_loads_object (\<lambda>s. None) (example_chat 0) ''llama''
     example_Claim [] =
   Inr \<lparr> vd_verdict = ''supported'', vd_confidence = 1, vd_reasoning = JStr [],
         vd_supporting_sources = JArr [], vd_contradicting_sources = JArr [],
         vd_model_used = ''llama'' \<rparr>"
  by (simp add: verify_single_claim_def example_chat_def example_Claim_def py_find_def
      py_rfind_def py_slice_def example_loads_object_def verdict_of_result_def example_lower
      py_get_def Let_def)

lemma example_single_fails:
  "verify_single_claim example_loads_object (\<lambda>s. None) (example_chat (Suc 0)) ''llama''
     example_Claim_2 [] = Inl (Exception ''timeout'')"
  by (simp add: verify_single_claim_def example_chat_def example_Claim_2_def example_Claim_def)

theorem verify_claims_one_verdict_per_claim_witness:
  "1 < length [example_Claim, example_Claim_2]
   \<and> verify_single_claim example_loads_object (\<lambda>s. None) (example_chat 1) ''llama''
         ([example_Claim, example_Claim_2] ! 1)
         (py_get (map_of [] (claim_id ([example_Claim, example_Claim_2] ! 1))) [])
       = Inl (Exception ''timeout'')
   \<and> verify_claims example_loads_object (\<lambda>s. None) example_chat ''llama''
         [example_Claim, example_Claim_2] [] ! 1
       = \<lparr> vd_verdict = ''not_verifiable'', vd_confidence = 0,
           vd_reasoning = JStr ''Verification failed due to an error.'',
           vd_supporting_sources = JArr [], vd_contradicting_sources = JArr [],
           vd_model_used = ''llama'', vd_claim_id = ''clm_2'' \<rparr>
   \<and> verify_claims example_loads_object (\<lambda>s. None) example_chat ''llama''
         [example_Claim, example_Claim_2] [] = example_verdicts"
proof -
  have len: "1 < length [example_Claim, example_Claim_2]" by simp
  have fail: "verify_single_claim example_loads_object (\<lambda>s. None) (example_chat 1) ''llama''
         ([example_Claim, example_Claim_2] ! 1)
         (py_get (map_of [] (claim_id ([example_Claim, example_Claim_2] ! 1))) [])
       = Inl (Exception ''timeout'')"
    by (simp add: example_single_fails py_get_def)
  have id2: "claim_id ([example_Claim, example_Claim_2] ! 1) = ''clm_2''"
    by (simp add: example_Claim_2_def)
  have all: "verify_claims example_loads_object (\<lambda>s. None) example_chat ''llama''
         [example_Claim, example_Claim_2] [] = example_verdicts"
    using example_single_ok example_single_fails
    by (simp add: verify_claims_eq verdict_for_def py_get_def example_verdicts_def
        with_claim_id_def fallback_verdict_def example_Claim_def example_Claim_2_def)
  from verify_claims_one_verdict_per_claim
    [of example_loads_object "\<lambda>s. None" example_chat "''llama''"
      "[example_Claim, example_Claim_2]" "[]"]
  have "verify_claims example_loads_object (\<lambda>s. None) example_chat ''llama''
         [example_Claim, example_Claim_2] [] ! 1
       = \<lparr> vd_verdict = ''not_verifiable'', vd_confidence = 0,
           vd_reasoning = JStr ''Verification failed due to an error.'',
           vd_supporting_sources = JArr [], vd_contradicting_sources = JArr [],
           vd_model_used = ''llama'', vd_claim_id = ''clm_2'' \<rparr>"
    using len fail id2 by metis
  then show ?thesis using len fail all by blast
qed

section \<open>Properties of the pipeline orchestrator\<close>

text \<open>Every node returns a state, whatever its agent does.\<close>

lemma run_ingestion_returns: "\<exists>s'. run_ingestion ag s = Inr s'"
  by (cases "ingestion_process ag (raw_text s)") (simp_all add: run_ingestion_def)

lemma run_claim_decomposition_returns: "\<exists>s'. run_claim_decomposition ag s = Inr s'"
  by (cases "extract_claims ag (clean_text s) (state_vertical s)")
     (simp_all add: run_claim_decomposition_def)

lemma run_claim_classification_returns: "\<exists>s'. run_claim_classification ag s = Inr s'"
  by (cases "filter_claims ag (extracted_claims s)") (simp_all add: run_claim_classification_def)

lemma run_query_planning_returns: "\<exists>s'. run_query_planning ag s = Inr s'"
  by (cases "agent_plan_queries ag (verifiable_claims s) (state_vertical s)")
     (simp_all add: run_query_planning_def)

lemma run_retrieval_returns: "\<exists>s'. run_retrieval ag s = Inr s'"
  by (cases "agent_fetch_evidence ag (search_queries s)") (simp_all add: run_retrieval_def)

lemma run_evidence_ranking_returns: "\<exists>s'. run_evidence_ranking ag s = Inr s'"
  by (cases "agent_rank_evidence ag (verifiable_claims s) (raw_evidence s)")
     (simp_all add: run_evidence_ranking_def)

lemma run_verification_returns:
  "\<exists>s'. run_verification ag s = Inr s' \<and> ranked_evidence s' = ranked_evidence s
        \<and> raw_evidence s' = raw_evidence s"
  by (cases "agent_verify_claims ag (verifiable_claims s) (ranked_evidence s)")
     (simp_all add: run_verification_def)

lemma run_explanation_returns:
  "\<exists>s'. run_explanation ag s = Inr s' \<and> ranked_evidence s' = ranked_evidence s
        \<and> raw_evidence s' = raw_evidence s"
  by (cases "format_results ag (verifiable_claims s) (state_verdicts s) (ranked_evidence s)")
     (simp_all add: run_explanation_def)

text \<open>The run up to the retriever, and the whole run in terms of the state it leaves.\<close>

lemma ainvoke_split:
  "\<exists>s5 s6 s7 final.
      run_evidence_ranking ag s5 = Inr s6 \<and> run_verification ag s6 = Inr s7
      \<and> run_explanation ag s7 = Inr final \<and> ainvoke ag s = Inr final"
proof -
  obtain s1 where s1: "run_ingestion ag s = Inr s1"
    using run_ingestion_returns by blast
  obtain s2 where s2: "run_claim_decomposition ag s1 = Inr s2"
    using run_claim_decomposition_returns by blast
  obtain s3 where s3: "run_claim_classification ag s2 = Inr s3"
    using run_claim_classification_returns by blast
  obtain s4 where s4: "run_query_planning ag s3 = Inr s4"
    using run_query_planning_returns by blast
  obtain s5 where s5: "run_retrieval ag s4 = Inr s5"
    using run_retrieval_returns by blast
  obtain s6 where s6: "run_evidence_ranking ag s5 = Inr s6"
    using run_evidence_ranking_returns by blast
  obtain s7 where s7: "run_verification ag s6 = Inr s7"
    using run_verification_returns by blast
  obtain final where f: "run_explanation ag s7 = Inr final"
    using run_explanation_returns by blast
  have "ainvoke ag s = Inr final"
    by (simp add: ainvoke_def then_node_def s1 s2 s3 s4 s5 s6 s7 f)
  then show ?thesis using s6 s7 f by blast
qed

lemma ainvoke_completes: "run_completes (ainvoke ag s)"
  using ainvoke_split [of ag s] by (auto simp: run_completes_def)

text \<open>
  Claim C5. For every input and every behaviour of the agents, including one that raises in
  any stage, the run of the graph ends with a state, \<open>run\<close> returns a result and so does the
  service that adds the page score; and the node of a stage whose agent raises returns the
  state with the diagnostic string appended to the error list and with the stage's default:
  the raw text as clean text, no extracted claims, the extracted claims as verifiable claims,
  the queries and the raw evidence as they were, the raw evidence as ranked evidence, the
  verdicts as they were, and no formatted claims. Eight of the nine stages are nodes of the
  graph; the ninth, the score aggregator, is the total function \<open>calculate_page_score\<close>.
\<close>

theorem pipeline_failure_isolation:
  "run_completes (ainvoke ag s)
   \<and> (\<exists>r. run ag txt u vert lang = Inr r)
   \<and> (\<exists>r. service_verify ag txt u vert lang = Inr r)
   \<and> (ingestion_process ag (raw_text s) = Inl e \<longrightarrow>
        run_ingestion ag s =
          Inr (s\<lparr>errors := errors s @ [''Ingestion error: '' @ str_exn e],
                 clean_text := raw_text s\<rparr>))
   \<and> (extract_claims ag (clean_text s) (state_vertical s) = Inl e \<longrightarrow>
        run_claim_decomposition ag s =
          Inr (s\<lparr>errors := errors s @ [''Claim decomposition error: '' @ str_exn e],
                 extracted_claims := []\<rparr>))
   \<and> (filter_claims ag (extracted_claims s) = Inl e \<longrightarrow>
        run_claim_classification ag s =
          Inr (s\<lparr>errors := errors s @ [''Classification error: '' @ str_exn e],
                 verifiable_claims := extracted_claims s\<rparr>))
   \<and> (agent_plan_queries ag (verifiable_claims s) (state_vertical s) = Inl e \<longrightarrow>
        run_query_planning ag s =
          Inr (s\<lparr>errors := errors s @ [''Query planning error: '' @ str_exn e]\<rparr>))
   \<and> (agent_fetch_evidence ag (search_queries s) = Inl e \<longrightarrow>
        run_retrieval ag s =
          Inr (s\<lparr>errors := errors s @ [''Retrieval error: '' @ str_exn e]\<rparr>))
   \<and> (agent_rank_evidence ag (verifiable_claims s) (raw_evidence s) = Inl e \<longrightarrow>
        run_evidence_ranking ag s =
          Inr (s\<lparr>errors := errors s @ [''Ranking error: '' @ str_exn e],
                 ranked_evidence := raw_evidence s\<rparr>))
   \<and> (agent_verify_claims ag (verifiable_claims s) (ranked_evidence s) = Inl e \<longrightarrow>
        run_verification ag s =
          Inr (s\<lparr>errors := errors s @ [''Verification error: '' @ str_exn e]\<rparr>))
   \<and> (format_results ag (verifiable_claims s) (state_verdicts s) (ranked_evidence s) = Inl e \<longrightarrow>
        run_explanation ag s =
          Inr (s\<lparr>errors := errors s @ [''Explanation error: '' @ str_exn e],
                 state_claims := []\<rparr>))"
proof -
  obtain final where f: "ainvoke ag (initial_state txt u vert lang) = Inr final"
    using ainvoke_split [of ag "initial_state txt u vert lang"] by blast
  have r: "\<exists>r. run ag txt u vert lang = Inr r" by (simp add: run_def f)
  then have v: "\<exists>r. service_verify ag txt u vert lang = Inr r"
    by (auto simp: service_verify_def)
  show ?thesis
    using ainvoke_completes [of ag s] r v
    by (simp add: run_ingestion_def run_claim_decomposition_def run_claim_classification_def
        run_query_planning_def run_retrieval_def run_evidence_ranking_def run_verification_def
        run_explanation_def)
qed

lemma failing_run: "ainvoke failing_agents example_state = Inr failing_final_state"
  by (simp add: ainvoke_def then_node_def run_ingestion_def run_claim_decomposition_def
      run_claim_classification_def run_query_planning_def run_retrieval_def
      run_evidence_ranking_def run_verification_def run_explanation_def failing_agents_def
      example_state_def initial_state_def failing_final_state_def)

theorem pipeline_failure_isolation_witness:
  "ingestion_process failing_agents (raw_text example_state) = Inl (Exception ''down'')
   \<and> run_ingestion failing_agents example_state =
        Inr (example_state\<lparr>errors := errors example_state @ [''Ingestion error: down''],
                           clean_text := raw_text example_state\<rparr>)
   \<and> extract_claims failing_agents (clean_text example_state) (state_vertical example_state)
        = Inl (Exception ''down'')
   \<and> run_claim_decomposition failing_agents example_state =
        Inr (example_state\<lparr>errors := errors example_state @ [''Claim decomposition error: down''],
                           extracted_claims := []\<rparr>)
   \<and> filter_claims failing_agents (extracted_claims example_state) = Inl (Exception ''down'')
   \<and> run_claim_classification failing_agents example_state =
        Inr (example_state\<lparr>errors := errors example_state @ [''Classification error: down''],
                           verifiable_claims := extracted_claims example_state\<rparr>)
   \<and> agent_plan_queries failing_agents (verifiable_claims example_state)
          (state_vertical example_state) = Inl (Exception ''down'')
   \<and> run_query_planning failing_agents example_state =
        Inr (example_state\<lparr>errors := errors example_state @ [''Query planning error: down'']\<rparr>)
   \<and> agent_fetch_evidence failing_agents (search_queries example_state) = Inl (Exception ''down'')
   \<and> run_retrieval failing_agents example_state =
        Inr (example_state\<lparr>errors := errors example_state @ [''Retrieval error: down'']\<rparr>)
   \<and> agent_rank_evidence failing_agents (verifiable_claims example_state)
          (raw_evidence example_state) = Inl (Exception ''down'')
   \<and> run_evidence_ranking failing_agents example_state =
        Inr (example_state\<lparr>errors := errors example_state @ [''Ranking error: down''],
                           ranked_evidence := raw_evidence example_state\<rparr>)
   \<and> agent_verify_claims failing_agents (verifiable_claims example_state)
          (ranked_evidence example_state) = Inl (Exception ''down'')
   \<and> run_verification failing_agents example_state =
        Inr (example_state\<lparr>errors := errors example_state @ [''Verification error: down'']\<rparr>)
   \<and> format_results failing_agents (verifiable_claims example_state)
          (state_verdicts example_state) (ranked_evidence example_state) = Inl (Exception ''down'')
   \<and> run_explanation failing_agents example_state =
        Inr (example_state\<lparr>errors := errors example_state @ [''Explanation error: down''],
                           state_claims := []\<rparr>)
   \<and> run_completes (ainvoke failing_agents example_state)
   \<and> ainvoke failing_agents example_state = Inr failing_final_state"
proof -
  have h: "ingestion_process failing_agents (raw_text example_state) = Inl (Exception ''down'')"
    "extract_claims failing_agents (clean_text example_state) (state_vertical example_state)
        = Inl (Exception ''down'')"
    "filter_claims failing_agents (extracted_claims example_state) = Inl (Exception ''down'')"
    "agent_plan_queries failing_agents (verifiable_claims example_state)
          (state_vertical example_state) = Inl (Exception ''down'')"
    "agent_fetch_evidence failing_agents (search_queries example_state) = Inl (Exception ''down'')"
    "agent_rank_evidence failing_agents (verifiable_claims example_state)
          (raw_evidence example_state) = Inl (Exception ''down'')"
    "agent_verify_claims failing_agents (verifiable_claims example_state)
          (ranked_evidence example_state) = Inl (Exception ''down'')"
    "format_results failing_agents (verifiable_claims example_state)
          (state_verdicts example_state) (ranked_evidence example_state) = Inl (Exception ''down'')"
    by (simp_all add: failing_agents_def)
  have m: "str_exn (Exception ''down'') = ''down''" by simp
  note t = pipeline_failure_isolation
    [of failing_agents example_state "''Some text to verify''" None "''general''" "''en''"
      "Exception ''down''", unfolded m]
  show ?thesis
    using t h failing_run by simp
qed

text \<open>The ranked evidence at the end of the run is what the ranking node left.\<close>

lemma ainvoke_ranked:
  "\<exists>s5 s6 final. run_evidence_ranking ag s5 = Inr s6 \<and> ainvoke ag s = Inr final
      \<and> ranked_evidence final = ranked_evidence s6 \<and> raw_evidence final = raw_evidence s6"
proof -
  obtain s5 s6 s7 final where
    r: "run_evidence_ranking ag s5 = Inr s6" and v: "run_verification ag s6 = Inr s7"
    and x: "run_explanation ag s7 = Inr final" and a: "ainvoke ag s = Inr final"
    using ainvoke_split [of ag s] by blast
  have "ranked_evidence s7 = ranked_evidence s6 \<and> raw_evidence s7 = raw_evidence s6"
    using run_verification_returns [of ag s6] v by auto
  moreover have "ranked_evidence final = ranked_evidence s7 \<and> raw_evidence final = raw_evidence s7"
    using run_explanation_returns [of ag s7] x by auto
  ultimately show ?thesis using r a by auto
qed

lemma rank_loop_lengths:
  assumes "list_all (\<lambda>entry. length (snd entry) \<le> k) acc"
  shows "list_all (\<lambda>entry. length (snd entry) \<le> k)
           (rank_loop k llm py_float age_days_of by_id evidence acc)"
proof -
  have "length (snd entry) \<le> k"
    if "entry \<in> set (rank_loop k llm py_float age_days_of by_id evidence acc)" for entry
  proof -
    obtain cid ranked where entry: "entry = (cid, ranked)" by (cases entry)
    from rank_loop_entries [of cid ranked k llm py_float age_days_of by_id evidence acc]
      that entry
    have "(cid, ranked) \<in> set acc
        \<or> (\<exists>claim items. ranked = rank_claim k (llm cid) py_float age_days_of claim items)"
      by blast
    then show ?thesis
    proof
      assume "(cid, ranked) \<in> set acc"
      then show ?thesis using assms entry by (auto simp: list_all_iff)
    next
      assume "\<exists>claim items. ranked = rank_claim k (llm cid) py_float age_days_of claim items"
      then show ?thesis using entry rank_claim_props by (auto simp: rank_claim_def)
    qed
  qed
  then show ?thesis by (simp add: list_all_iff)
qed

lemma rank_evidence_lengths:
  "list_all (\<lambda>entry. length (snd entry) \<le> k)
     (rank_evidence k llm py_float age_days_of claims evidence)"
  by (simp add: rank_evidence_def rank_loop_lengths)

lemma ranker_fails_run:
  "\<exists>final. ainvoke ranker_fails_agents example_state = Inr final
      \<and> ranked_evidence final = [(''clm_1'', eleven_items)]"
  by (simp add: ainvoke_def then_node_def run_ingestion_def run_claim_decomposition_def
      run_claim_classification_def run_query_planning_def run_retrieval_def
      run_evidence_ranking_def run_verification_def run_explanation_def
      ranker_fails_agents_def)

text \<open>
  Claim C6 as stated fails: when the ranking stage fails, the orchestrator stores the raw
  evidence as ranked evidence, and a raw evidence list may be longer than the maximum. Here
  the run completes and the ranked evidence of the claim has eleven items, with the maximum
  at its default of ten.
\<close>

theorem ranked_evidence_limit_counterexample:
  "run_completes (ainvoke ranker_fails_agents example_state)
   \<and> \<not> run_ranked_within_limit MAX_EVIDENCE_PER_CLAIM
         (ainvoke ranker_fails_agents example_state)"
proof -
  obtain final where f: "ainvoke ranker_fails_agents example_state = Inr final"
    and r: "ranked_evidence final = [(''clm_1'', eleven_items)]"
    using ranker_fails_run by blast
  have "length eleven_items = 11" by (simp add: eleven_items_def)
  then show ?thesis
    by (simp add: f r run_completes_def run_ranked_within_limit_def MAX_EVIDENCE_PER_CLAIM_def)
qed

text \<open>
  Claim C6, amended. In every pipeline run whose ranking stage returns what \<open>rank_evidence\<close>
  computes with the maximum \<open>k\<close>, each ranked evidence list of the final state has at most
  \<open>k\<close> items. In every run whose ranking stage fails, the ranked evidence of the final state
  is the raw evidence, unchanged.
\<close>

theorem ranked_evidence_limit_or_raw:
  "(agent_rank_evidence ag
        = (\<lambda>cs ev. Inr (rank_evidence k llm py_float age_days_of cs ev))
      \<longrightarrow> run_ranked_within_limit k (ainvoke ag s))
   \<and> (agent_rank_evidence ag = (\<lambda>cs ev. Inl e) \<longrightarrow> run_ranked_is_raw (ainvoke ag s))"
proof (intro conjI impI)
  obtain s5 s6 final where
    r: "run_evidence_ranking ag s5 = Inr s6" and a: "ainvoke ag s = Inr final"
    and k: "ranked_evidence final = ranked_evidence s6"
    and w: "raw_evidence final = raw_evidence s6"
    using ainvoke_ranked [of ag s] by blast
  {
    assume "agent_rank_evidence ag
        = (\<lambda>cs ev. Inr (rank_evidence k llm py_float age_days_of cs ev))"
    then have "ranked_evidence s6
        = rank_evidence k llm py_float age_days_of (verifiable_claims s5) (raw_evidence s5)"
      using r by (auto simp: run_evidence_ranking_def)
    then show "run_ranked_within_limit k (ainvoke ag s)"
      using a k by (simp add: run_ranked_within_limit_def rank_evidence_lengths)
  next
    assume "agent_rank_evidence ag = (\<lambda>cs ev. Inl e)"
    then have "ranked_evidence s6 = raw_evidence s6"
      using r by (auto simp: run_evidence_ranking_def)
    then show "run_ranked_is_raw (ainvoke ag s)"
      using a k w by (simp add: run_ranked_is_raw_def)
  }
qed

theorem ranked_evidence_limit_or_raw_witness:
  "agent_rank_evidence ranker_works_agents
      = (\<lambda>cs ev. Inr (rank_evidence 2 example_relevance_llm example_py_float (\<lambda>s. None) cs ev))
   \<and> run_ranked_within_limit 2 (ainvoke ranker_works_agents example_state)
   \<and> agent_rank_evidence ranker_fails_agents = (\<lambda>cs ev. Inl (Exception ''down''))
   \<and> run_ranked_is_raw (ainvoke ranker_fails_agents example_state)"
proof -
  have h1: "agent_rank_evidence ranker_works_agents
      = (\<lambda>cs ev. Inr (rank_evidence 2 example_relevance_llm example_py_float (\<lambda>s. None) cs ev))"
    by (simp add: ranker_works_agents_def)
  have h2: "agent_rank_evidence ranker_fails_agents = (\<lambda>cs ev. Inl (Exception ''down''))"
    by (simp add: ranker_fails_agents_def)
  show ?thesis
    using ranked_evidence_limit_or_raw
        [of ranker_works_agents 2 example_relevance_llm example_py_float "\<lambda>s. None"
          example_state "Exception ''down''"]
      ranked_evidence_limit_or_raw
        [of ranker_fails_agents 2 example_relevance_llm example_py_float "\<lambda>s. None"
          example_state "Exception ''down''"]
      h1 h2
    by blast
qed

end
